theory Spec2Isabelle
  imports Complex_Main "HOL-Library.Word" "HOL-Library.Log_Nat"
begin

unbundle bit_operations_syntax

section \<open>Floating-point values of the clear colour\<close>

text \<open>
  \<open>VkClearColorValue::float32\<close> holds four IEEE 754 binary32 numbers.  The per-frame
  update \<open>fmodf(mClearColorValue.float32[i] + 0.01, 1.0)\<close> promotes the channel to
  \<open>double\<close>, adds the \<open>double\<close> literal \<open>0.01\<close>, converts the sum back to \<open>float\<close>
  for the call of \<open>fmodf\<close>, and takes the remainder by \<open>1.0f\<close>.  The arithmetic is that
  of IEEE 754 with rounding to nearest, ties to even, and the sum is evaluated in
  \<open>double\<close>, as on the targets of the Android NDK.  A value of either format is modelled
  by the rational number it denotes, or one of the three special values; the two zeros
  are identified, since no operation used here tells them apart.  The initial value of
  \<open>mClearColorValue\<close> is set in \<open>VkRenderer.h\<close>, which is not among the sources: it is a
  parameter of every statement below.
\<close>

datatype fp = Finite rat | PInf | NInf | NaN

definition round_half_even :: "rat \<Rightarrow> int" where
  "round_half_even q =
     (if q - of_int \<lfloor>q\<rfloor> < 1 / 2 then \<lfloor>q\<rfloor>
      else if 1 / 2 < q - of_int \<lfloor>q\<rfloor> then \<lfloor>q\<rfloor> + 1
      else if even \<lfloor>q\<rfloor> then \<lfloor>q\<rfloor> else \<lfloor>q\<rfloor> + 1)"

definition ilog2 :: "rat \<Rightarrow> int" where
  \<comment> \<open>the binary exponent of a positive rational: \<open>2 powi ilog2 x \<le> x < 2 powi (ilog2 x + 1)\<close>\<close>
  "ilog2 x = (if 1 \<le> x then bitlen \<lfloor>x\<rfloor> - 1 else - bitlen (\<lceil>1 / x\<rceil> - 1))"

definition ulp :: "nat \<Rightarrow> int \<Rightarrow> rat \<Rightarrow> rat" where
  \<comment> \<open>the spacing of the numbers with \<open>p\<close> significand bits around \<open>x\<close>; below the
      normal range (exponent \<open>emin\<close>) the spacing stays that of the lowest binade\<close>
  "ulp p emin x = 2 powi (max emin (ilog2 \<bar>x\<bar>) - (int p - 1))"

definition overflow :: "int \<Rightarrow> rat \<Rightarrow> fp" where
  \<comment> \<open>a rounded magnitude of \<open>2 powi (emax + 1)\<close> or more is beyond the largest finite value\<close>
  "overflow emax y =
     (if \<bar>y\<bar> < 2 powi (emax + 1) then Finite y else if 0 < y then PInf else NInf)"

definition fp_round :: "nat \<Rightarrow> int \<Rightarrow> int \<Rightarrow> rat \<Rightarrow> fp" where
  \<comment> \<open>round to nearest, ties to even, in the format with \<open>p\<close> significand bits and
      exponent range \<open>emin .. emax\<close>\<close>
  "fp_round p emin emax x =
     (if x = 0 then Finite 0
      else overflow emax (ulp p emin x * of_int (round_half_even (x / ulp p emin x))))"

definition round_float :: "rat \<Rightarrow> fp" where
  "round_float = fp_round 24 (- 126) 127"

definition round_double :: "rat \<Rightarrow> fp" where
  "round_double = fp_round 53 (- 1022) 1023"

definition float_to_double :: "fp \<Rightarrow> fp" where
  \<comment> \<open>every binary32 value is a binary64 value: the promotion is exact\<close>
  "float_to_double c = c"

fun double_to_float :: "fp \<Rightarrow> fp" where
  "double_to_float (Finite x) = round_float x"
| "double_to_float c = c"

fun double_add :: "fp \<Rightarrow> fp \<Rightarrow> fp" where
  "double_add (Finite x) (Finite y) = round_double (x + y)"
| "double_add NaN _ = NaN"
| "double_add _ NaN = NaN"
| "double_add PInf NInf = NaN"
| "double_add NInf PInf = NaN"
| "double_add PInf _ = PInf"
| "double_add _ PInf = PInf"
| "double_add NInf _ = NInf"
| "double_add _ NInf = NInf"

definition trunc :: "rat \<Rightarrow> int" where
  "trunc q = (if 0 \<le> q then \<lfloor>q\<rfloor> else \<lceil>q\<rceil>)"

fun fmodf :: "fp \<Rightarrow> fp \<Rightarrow> fp" where
  \<comment> \<open>C's \<open>fmodf\<close>: \<open>x - n * y\<close> with \<open>n\<close> the quotient cut off towards zero; the
      result is exact and has the sign of \<open>x\<close>\<close>
  "fmodf (Finite x) (Finite y) =
     (if y = 0 then NaN else Finite (x - y * of_int (trunc (x / y))))"
| "fmodf (Finite x) PInf = Finite x"
| "fmodf (Finite x) NInf = Finite x"
| "fmodf _ _ = NaN"

definition advance_channel :: "fp \<Rightarrow> fp" where
  \<comment> \<open>\<open>fmodf(c + 0.01, 1.0)\<close> for a \<open>float\<close> \<open>c\<close>\<close>
  "advance_channel c =
     fmodf (double_to_float (double_add (float_to_double c) (round_double (1 / 100))))
           (double_to_float (round_double 1))"

definition update_clear_color :: "fp list \<Rightarrow> fp list" where
  \<comment> \<open>\<open>for (auto i = 0; i != 4; ++i) float32[i] = fmodf(float32[i] + 0.01, 1.0);\<close>\<close>
  "update_clear_color cs = fold (\<lambda>i cs. cs[i := advance_channel (cs ! i)]) [0..<4] cs"


text \<open>The channels that denote a number in the half-open interval from 0 to 1.\<close>

fun in_unit_interval :: "fp \<Rightarrow> bool" where
  "in_unit_interval (Finite x) = (0 \<le> x \<and> x < 1)"
| "in_unit_interval c = False"

section \<open>The graphics API as seen by the renderer\<close>

text \<open>
  The renderer drives an external driver.  What the driver answers is an input of the
  model: the status of every call, as a function of the call and its arguments, and the
  data of every query.  What the renderer does is observed as the sequence of calls it
  issues, each with the arguments that matter for ordering and synchronisation.
  Diagnostic output on \<open>aout\<close> is not modelled.
\<close>

datatype VkResult =
    VK_SUCCESS | VK_NOT_READY | VK_TIMEOUT | VK_INCOMPLETE | VK_SUBOPTIMAL_KHR
  | VK_ERROR_OUT_OF_HOST_MEMORY | VK_ERROR_OUT_OF_DEVICE_MEMORY | VK_ERROR_DEVICE_LOST
  | VK_ERROR_SURFACE_LOST_KHR | VK_ERROR_OUT_OF_DATE_KHR

text \<open>The handle-valued members of \<open>VkRenderer\<close> that the renderer creates and owns.\<close>

datatype handle =
    mInstance | mDevice | mSurface | mSwapchain | mCommandPool | mCommandBuffer
  | mFence | mImageAcquisitionSemaphore | mRenderCompletionSemaphore

text \<open>The two calls of the enumeration idiom: first the count, then the data.\<close>

datatype enum_call = Count | Fill

datatype VkImageLayout =
    VK_IMAGE_LAYOUT_UNDEFINED | VK_IMAGE_LAYOUT_PRESENT_SRC_KHR
  | VK_IMAGE_LAYOUT_TRANSFER_DST_OPTIMAL

datatype VkPipelineStage =
    VK_PIPELINE_STAGE_TOP_OF_PIPE_BIT | VK_PIPELINE_STAGE_TRANSFER_BIT
  | VK_PIPELINE_STAGE_BOTTOM_OF_PIPE_BIT

text \<open>Constants of the Vulkan headers, with the values the headers give them.\<close>

definition VK_QUEUE_GRAPHICS_BIT :: "32 word" where
  "VK_QUEUE_GRAPHICS_BIT = 0x1"

definition VK_FORMAT_R8G8B8A8_UNORM :: nat where
  "VK_FORMAT_R8G8B8A8_UNORM = 37"

definition VK_FORMAT_MAX_ENUM :: nat where
  "VK_FORMAT_MAX_ENUM = 0x7FFFFFFF"

definition VK_PRESENT_MODE_FIFO_KHR :: nat where
  "VK_PRESENT_MODE_FIFO_KHR = 2"

definition VK_PRESENT_MODE_MAX_ENUM_KHR :: nat where
  "VK_PRESENT_MODE_MAX_ENUM_KHR = 0x7FFFFFFF"

definition VK_COMPOSITE_ALPHA_FLAG_BITS_MAX_ENUM_KHR :: "32 word" where
  "VK_COMPOSITE_ALPHA_FLAG_BITS_MAX_ENUM_KHR = 0x7FFFFFFF"

definition VK_IMAGE_USAGE_TRANSFER_DST_BIT :: "32 word" where
  "VK_IMAGE_USAGE_TRANSFER_DST_BIT = 0x2"

definition VK_IMAGE_USAGE_COLOR_ATTACHMENT_BIT :: "32 word" where
  "VK_IMAGE_USAGE_COLOR_ATTACHMENT_BIT = 0x10"

definition VK_COMMAND_POOL_CREATE_TRANSIENT_BIT :: "32 word" where
  "VK_COMMAND_POOL_CREATE_TRANSIENT_BIT = 0x1"

definition VK_COMMAND_POOL_CREATE_RESET_COMMAND_BUFFER_BIT :: "32 word" where
  "VK_COMMAND_POOL_CREATE_RESET_COMMAND_BUFFER_BIT = 0x2"

definition VK_COMMAND_BUFFER_USAGE_ONE_TIME_SUBMIT_BIT :: "32 word" where
  "VK_COMMAND_BUFFER_USAGE_ONE_TIME_SUBMIT_BIT = 0x1"

definition VK_ACCESS_NONE :: "32 word" where
  "VK_ACCESS_NONE = 0"

definition VK_ACCESS_TRANSFER_WRITE_BIT :: "32 word" where
  "VK_ACCESS_TRANSFER_WRITE_BIT = 0x1000"

definition UINT64_MAX :: nat where
  "UINT64_MAX = 2 ^ 64 - 1"

record VkSurfaceFormatKHR =
  format :: nat
  colorSpace :: nat

record VkSurfaceCapabilitiesKHR =
  minImageCount :: nat
  currentExtent :: "nat \<times> nat"
  supportedTransforms :: "32 word"
  currentTransform :: "32 word"
  supportedCompositeAlpha :: "32 word"
  supportedUsageFlags :: "32 word"

record VkSwapchainCreateInfoKHR =
  sc_minImageCount :: nat
  sc_imageFormat :: nat
  sc_imageColorSpace :: nat
  sc_imageExtent :: "nat \<times> nat"
  sc_imageArrayLayers :: nat
  sc_imageUsage :: "32 word"
  sc_preTransform :: "32 word"
  sc_compositeAlpha :: "32 word"
  sc_presentMode :: nat

record VkImageMemoryBarrier =
  srcAccessMask :: "32 word"
  dstAccessMask :: "32 word"
  oldLayout :: VkImageLayout
  newLayout :: VkImageLayout
  barrierImage :: nat

datatype vk_call =
    vkEnumerateInstanceLayerProperties enum_call
  | vkEnumerateInstanceExtensionProperties enum_call
  | vkCreateInstance "string list" "string list"
  | vkEnumeratePhysicalDevices enum_call
  | vkGetPhysicalDeviceProperties
  | vkGetPhysicalDeviceQueueFamilyProperties enum_call
  | vkEnumerateDeviceExtensionProperties enum_call
  | vkCreateDevice nat "string list"
  | vkGetDeviceQueue nat nat
  | vkCreateAndroidSurfaceKHR
  | vkGetPhysicalDeviceSurfaceSupportKHR nat
  | vkGetPhysicalDeviceSurfaceCapabilitiesKHR
  | vkGetPhysicalDeviceSurfaceFormatsKHR enum_call
  | vkGetPhysicalDeviceSurfacePresentModesKHR enum_call
  | vkCreateSwapchainKHR VkSwapchainCreateInfoKHR
  | vkGetSwapchainImagesKHR enum_call
  | vkCreateCommandPool "32 word" nat
  | vkAllocateCommandBuffers
  | vkBeginCommandBuffer "32 word"
  | vkCmdPipelineBarrier VkPipelineStage VkPipelineStage VkImageMemoryBarrier
  | vkCmdClearColorImage nat VkImageLayout "fp list"
  | vkEndCommandBuffer
  | vkQueueSubmit "handle list" "VkPipelineStage list" "handle list"
  | vkQueueWaitIdle
  | vkCreateFence
  | vkCreateSemaphore handle
  | vkAcquireNextImageKHR nat handle handle
  | vkWaitForFences "handle list" bool nat
  | vkResetFences "handle list"
  | vkResetCommandBuffer "32 word"
  | vkQueuePresentKHR "handle list" nat
  | vkDestroySemaphore handle
  | vkDestroyFence handle
  | vkFreeCommandBuffers handle
  | vkDestroyCommandPool handle
  | vkDestroySwapchainKHR handle
  | vkDestroySurfaceKHR handle
  | vkDestroyDevice handle
  | vkDestroyInstance handle

text \<open>
  What one physical device reports: the \<open>queueFlags\<close> of each queue family, its
  device extensions, and, for the surface of the window, presentation support per queue
  family, the capabilities, the formats and the present modes.
\<close>

record physical_device =
  queueFamilyProperties :: "32 word list"
  deviceExtensionProperties :: "string list"
  surfaceSupport :: "nat \<Rightarrow> bool"
  surfaceCapabilities :: VkSurfaceCapabilitiesKHR
  surfaceFormats :: "VkSurfaceFormatKHR list"
  presentModes :: "nat list"

record driver =
  vkResult :: "vk_call \<Rightarrow> VkResult"
  instanceLayerProperties :: "string list"
  instanceExtensionProperties :: "string list"
  physicalDevices :: "physical_device list"
  swapchainImages :: "nat list"

text \<open>What the driver answers during one call of \<open>render\<close>.\<close>

record frame =
  frameResult :: "vk_call \<Rightarrow> VkResult"
  swapchainImageIndex :: nat

section \<open>The process: members, issued calls, termination\<close>

datatype halt = Fatal | AssertionFailed nat | UndefinedBehaviour nat

record state =
  calls :: "vk_call list"
  messages :: "(string \<times> nat \<times> vk_call \<times> VkResult) list"
  halted :: "halt option"
  mPhysicalDevice :: physical_device
  mQueueFamilyIndex :: nat
  mSwapchainImages :: "nat list"
  mClearColorValue :: "fp list"

definition invoke :: "vk_call \<Rightarrow> state \<Rightarrow> state" where
  \<comment> \<open>a call whose status, if it has one, is discarded\<close>
  "invoke c s = s\<lparr>calls := calls s @ [c]\<rparr>"

text \<open>
  Modelled from the spec: the macro \<open>VK_CHECK_ERROR\<close> of \<open>VkUtil.h\<close>, which is not
  among the sources.  It evaluates the call; a status other than success is logged with
  file, line and call expression, and the process terminates.
\<close>

definition VK_CHECK_ERROR :: "(vk_call \<Rightarrow> VkResult) \<Rightarrow> nat \<Rightarrow> vk_call \<Rightarrow> state \<Rightarrow> state" where
  \<comment> \<open>Modelled from the spec: \<open>res c\<close> is the status the driver returns for the call \<open>c\<close>,
      \<open>line\<close> the line of the call in \<open>VkRenderer.cpp\<close>\<close>
  "VK_CHECK_ERROR res line c s =
     (if res c = VK_SUCCESS then invoke c s
      else (invoke c s)\<lparr>messages := messages s @ [(''VkRenderer.cpp'', line, c, res c)],
                         halted := Some Fatal\<rparr>)"

definition c_assert :: "nat \<Rightarrow> bool \<Rightarrow> state \<Rightarrow> state" where
  \<comment> \<open>\<open>assert\<close> of \<open><cassert>\<close>, assertions enabled: a false condition aborts\<close>
  "c_assert line b s = (if b then s else s\<lparr>halted := Some (AssertionFailed line)\<rparr>)"

definition in_bounds :: "nat \<Rightarrow> nat \<Rightarrow> nat \<Rightarrow> state \<Rightarrow> state" where
  \<comment> \<open>\<open>std::vector::operator[]\<close> beyond the size is undefined; the model stops there\<close>
  "in_bounds line i n s = (if i < n then s else s\<lparr>halted := Some (UndefinedBehaviour line)\<rparr>)"

definition exec :: "(state \<Rightarrow> state) list \<Rightarrow> state \<Rightarrow> state" where
  \<comment> \<open>statements in sequence; nothing runs once the process has stopped\<close>
  "exec stmts s = fold (\<lambda>stmt s. if halted s = None then stmt s else s) stmts s"


section \<open>\<open>VkRenderer::render\<close>\<close>

definition swapchainImage :: "frame \<Rightarrow> state \<Rightarrow> nat" where
  \<comment> \<open>\<open>auto swapchainImage = mSwapchainImages[swapchainImageIndex];\<close>\<close>
  "swapchainImage fr s = mSwapchainImages s ! swapchainImageIndex fr"

definition imageMemoryBarrierForClearColorImage :: "nat \<Rightarrow> VkImageMemoryBarrier" where
  "imageMemoryBarrierForClearColorImage img =
     \<lparr>srcAccessMask = VK_ACCESS_NONE, dstAccessMask = VK_ACCESS_TRANSFER_WRITE_BIT,
      oldLayout = VK_IMAGE_LAYOUT_PRESENT_SRC_KHR,
      newLayout = VK_IMAGE_LAYOUT_TRANSFER_DST_OPTIMAL, barrierImage = img\<rparr>"

definition imageMemoryBarrierForPresentSwapchainImage :: "nat \<Rightarrow> VkImageMemoryBarrier" where
  "imageMemoryBarrierForPresentSwapchainImage img =
     \<lparr>srcAccessMask = VK_ACCESS_TRANSFER_WRITE_BIT, dstAccessMask = 0,
      oldLayout = VK_IMAGE_LAYOUT_TRANSFER_DST_OPTIMAL,
      newLayout = VK_IMAGE_LAYOUT_PRESENT_SRC_KHR, barrierImage = img\<rparr>"

definition render :: "frame \<Rightarrow> state \<Rightarrow> state" where
  "render fr = exec
     [VK_CHECK_ERROR (frameResult fr) 403
        (vkAcquireNextImageKHR UINT64_MAX mImageAcquisitionSemaphore mFence),
      (\<lambda>s. in_bounds 409 (swapchainImageIndex fr) (length (mSwapchainImages s)) s),
      VK_CHECK_ERROR (frameResult fr) 414 (vkWaitForFences [mFence] True UINT64_MAX),
      VK_CHECK_ERROR (frameResult fr) 415 (vkResetFences [mFence]),
      invoke (vkResetCommandBuffer 0),
      VK_CHECK_ERROR (frameResult fr) 430
        (vkBeginCommandBuffer VK_COMMAND_BUFFER_USAGE_ONE_TIME_SUBMIT_BIT),
      (\<lambda>s. invoke (vkCmdPipelineBarrier VK_PIPELINE_STAGE_TOP_OF_PIPE_BIT
                      VK_PIPELINE_STAGE_TRANSFER_BIT
                      (imageMemoryBarrierForClearColorImage (swapchainImage fr s))) s),
      (\<lambda>s. s\<lparr>mClearColorValue := update_clear_color (mClearColorValue s)\<rparr>),
      (\<lambda>s. invoke (vkCmdClearColorImage (swapchainImage fr s)
                      VK_IMAGE_LAYOUT_TRANSFER_DST_OPTIMAL (mClearColorValue s)) s),
      (\<lambda>s. invoke (vkCmdPipelineBarrier VK_PIPELINE_STAGE_TRANSFER_BIT
                      VK_PIPELINE_STAGE_BOTTOM_OF_PIPE_BIT
                      (imageMemoryBarrierForPresentSwapchainImage (swapchainImage fr s))) s),
      VK_CHECK_ERROR (frameResult fr) 524 vkEndCommandBuffer,
      VK_CHECK_ERROR (frameResult fr) 541
        (vkQueueSubmit [mImageAcquisitionSemaphore] [VK_PIPELINE_STAGE_TRANSFER_BIT]
           [mRenderCompletionSemaphore]),
      VK_CHECK_ERROR (frameResult fr) 555
        (vkQueuePresentKHR [mRenderCompletionSemaphore] (swapchainImageIndex fr))]"

text \<open>The event loop calls \<open>render\<close> once per iteration; frame \<open>k\<close> gets the answers \<open>frames k\<close>.\<close>

primrec render_n :: "(nat \<Rightarrow> frame) \<Rightarrow> nat \<Rightarrow> state \<Rightarrow> state" where
  "render_n frames 0 s = s"
| "render_n frames (Suc n) s = render (frames n) (render_n frames n s)"

section \<open>The constructor and the destructor of \<open>VkRenderer\<close>\<close>

definition instanceLayerNames :: "driver \<Rightarrow> string list" where
  "instanceLayerNames drv = instanceLayerProperties drv"

definition instanceExtensionNames :: "driver \<Rightarrow> string list" where
  "instanceExtensionNames drv =
     filter (\<lambda>name. name = ''VK_KHR_surface'' \<or> name = ''VK_KHR_android_surface'')
       (instanceExtensionProperties drv)"

definition deviceExtensionNames :: "physical_device \<Rightarrow> string list" where
  "deviceExtensionNames pd =
     filter (\<lambda>name. name = ''VK_KHR_swapchain'') (deviceExtensionProperties pd)"

text \<open>
  The loops below count an index up from 0 until it equals the size of the vector; the
  model tests \<open>i < length xs\<close>, which is the same test on the way up from 0.
\<close>

function queueFamilyLoop :: "32 word list \<Rightarrow> nat \<Rightarrow> nat" where
  "queueFamilyLoop qs i =
     (if i < length qs
      then (if qs ! i AND VK_QUEUE_GRAPHICS_BIT \<noteq> 0 then i else queueFamilyLoop qs (i + 1))
      else i)"
  by pat_completeness auto
termination
  by (relation "measure (\<lambda>(qs, i). length qs - i)") auto

function compositeAlphaLoop :: "32 word \<Rightarrow> nat \<Rightarrow> 32 word" where
  "compositeAlphaLoop supported i =
     (if i \<le> 4
      then (if supported AND push_bit i 1 \<noteq> 0 then push_bit i 1
            else compositeAlphaLoop supported (i + 1))
      else VK_COMPOSITE_ALPHA_FLAG_BITS_MAX_ENUM_KHR)"
  by pat_completeness auto
termination
  by (relation "measure (\<lambda>(supported, i). 5 - i)") auto

function surfaceFormatLoop :: "VkSurfaceFormatKHR list \<Rightarrow> nat \<Rightarrow> nat" where
  "surfaceFormatLoop fs i =
     (if i < length fs
      then (if format (fs ! i) = VK_FORMAT_R8G8B8A8_UNORM then i
            else surfaceFormatLoop fs (i + 1))
      else VK_FORMAT_MAX_ENUM)"
  by pat_completeness auto
termination
  by (relation "measure (\<lambda>(fs, i). length fs - i)") auto

function presentModeLoop :: "nat list \<Rightarrow> nat \<Rightarrow> nat" where
  "presentModeLoop ms i =
     (if i < length ms
      then (if ms ! i = VK_PRESENT_MODE_FIFO_KHR then i else presentModeLoop ms (i + 1))
      else VK_PRESENT_MODE_MAX_ENUM_KHR)"
  by pat_completeness auto
termination
  by (relation "measure (\<lambda>(ms, i). length ms - i)") auto

text \<open>The loop equations are kept out of the simplifier; they are unfolded by hand.\<close>

declare queueFamilyLoop.simps [simp del]
declare compositeAlphaLoop.simps [simp del]
declare surfaceFormatLoop.simps [simp del]
declare presentModeLoop.simps [simp del]

definition surfaceFormatIndex :: "physical_device \<Rightarrow> nat" where
  "surfaceFormatIndex pd = surfaceFormatLoop (surfaceFormats pd) 0"

definition presentModeIndex :: "physical_device \<Rightarrow> nat" where
  "presentModeIndex pd = presentModeLoop (presentModes pd) 0"

definition compositeAlpha :: "physical_device \<Rightarrow> 32 word" where
  "compositeAlpha pd = compositeAlphaLoop (supportedCompositeAlpha (surfaceCapabilities pd)) 0"

definition swapchainCreateInfo :: "physical_device \<Rightarrow> VkSwapchainCreateInfoKHR" where
  "swapchainCreateInfo pd =
     \<lparr>sc_minImageCount = minImageCount (surfaceCapabilities pd),
      sc_imageFormat = format (surfaceFormats pd ! surfaceFormatIndex pd),
      sc_imageColorSpace = colorSpace (surfaceFormats pd ! surfaceFormatIndex pd),
      sc_imageExtent = currentExtent (surfaceCapabilities pd),
      sc_imageArrayLayers = 1,
      sc_imageUsage = VK_IMAGE_USAGE_COLOR_ATTACHMENT_BIT OR VK_IMAGE_USAGE_TRANSFER_DST_BIT,
      sc_preTransform = currentTransform (surfaceCapabilities pd),
      sc_compositeAlpha = compositeAlpha pd,
      sc_presentMode = presentModes pd ! presentModeIndex pd\<rparr>"

definition layoutBarrier :: "nat \<Rightarrow> VkImageMemoryBarrier" where
  \<comment> \<open>the barrier recorded once for every swapchain image by the constructor\<close>
  "layoutBarrier img =
     \<lparr>srcAccessMask = 0, dstAccessMask = 0, oldLayout = VK_IMAGE_LAYOUT_UNDEFINED,
      newLayout = VK_IMAGE_LAYOUT_PRESENT_SRC_KHR, barrierImage = img\<rparr>"

text \<open>
  The constructor, in the numbered steps of the source: each step is a list of
  statements, and the constructor runs them in sequence.
\<close>

definition create_instance :: "driver \<Rightarrow> (state \<Rightarrow> state) list" where
  "create_instance drv =
     [VK_CHECK_ERROR (vkResult drv) 46 (vkEnumerateInstanceLayerProperties Count),
      VK_CHECK_ERROR (vkResult drv) 49 (vkEnumerateInstanceLayerProperties Fill),
      VK_CHECK_ERROR (vkResult drv) 58 (vkEnumerateInstanceExtensionProperties Count),
      VK_CHECK_ERROR (vkResult drv) 63 (vkEnumerateInstanceExtensionProperties Fill),
      c_assert 74 (length (instanceExtensionNames drv) = 2),
      VK_CHECK_ERROR (vkResult drv) 85
        (vkCreateInstance (instanceLayerNames drv) (instanceExtensionNames drv))]"

definition select_physical_device :: "driver \<Rightarrow> (state \<Rightarrow> state) list" where
  "select_physical_device drv =
     [VK_CHECK_ERROR (vkResult drv) 91 (vkEnumeratePhysicalDevices Count),
      VK_CHECK_ERROR (vkResult drv) 94 (vkEnumeratePhysicalDevices Fill),
      in_bounds 98 0 (length (physicalDevices drv)),
      (\<lambda>s. s\<lparr>mPhysicalDevice := physicalDevices drv ! 0\<rparr>),
      invoke vkGetPhysicalDeviceProperties]"

definition create_device :: "driver \<Rightarrow> (state \<Rightarrow> state) list" where
  "create_device drv =
     [invoke (vkGetPhysicalDeviceQueueFamilyProperties Count),
      invoke (vkGetPhysicalDeviceQueueFamilyProperties Fill),
      (\<lambda>s. s\<lparr>mQueueFamilyIndex :=
                queueFamilyLoop (queueFamilyProperties (mPhysicalDevice s)) 0\<rparr>),
      VK_CHECK_ERROR (vkResult drv) 145 (vkEnumerateDeviceExtensionProperties Count),
      VK_CHECK_ERROR (vkResult drv) 151 (vkEnumerateDeviceExtensionProperties Fill),
      (\<lambda>s. c_assert 162 (length (deviceExtensionNames (mPhysicalDevice s)) = 1) s),
      (\<lambda>s. VK_CHECK_ERROR (vkResult drv) 172
             (vkCreateDevice (mQueueFamilyIndex s) (deviceExtensionNames (mPhysicalDevice s))) s),
      (\<lambda>s. invoke (vkGetDeviceQueue (mQueueFamilyIndex s) 0) s)]"

definition create_surface :: "driver \<Rightarrow> (state \<Rightarrow> state) list" where
  "create_surface drv =
     [VK_CHECK_ERROR (vkResult drv) 183 vkCreateAndroidSurfaceKHR,
      (\<lambda>s. VK_CHECK_ERROR (vkResult drv) 186
             (vkGetPhysicalDeviceSurfaceSupportKHR (mQueueFamilyIndex s)) s),
      (\<lambda>s. c_assert 190 (surfaceSupport (mPhysicalDevice s) (mQueueFamilyIndex s)) s)]"

definition query_surface_capabilities :: "driver \<Rightarrow> (state \<Rightarrow> state) list" where
  "query_surface_capabilities drv =
     [VK_CHECK_ERROR (vkResult drv) 196 vkGetPhysicalDeviceSurfaceCapabilitiesKHR,
      (\<lambda>s. c_assert 207
             (compositeAlpha (mPhysicalDevice s) \<noteq> VK_COMPOSITE_ALPHA_FLAG_BITS_MAX_ENUM_KHR) s),
      (\<lambda>s. c_assert 211
             (supportedUsageFlags (surfaceCapabilities (mPhysicalDevice s))
                AND VK_IMAGE_USAGE_COLOR_ATTACHMENT_BIT \<noteq> 0) s)]"

definition choose_surface_format :: "driver \<Rightarrow> (state \<Rightarrow> state) list" where
  "choose_surface_format drv =
     [VK_CHECK_ERROR (vkResult drv) 214 (vkGetPhysicalDeviceSurfaceFormatsKHR Count),
      VK_CHECK_ERROR (vkResult drv) 220 (vkGetPhysicalDeviceSurfaceFormatsKHR Fill),
      (\<lambda>s. c_assert 232 (surfaceFormatIndex (mPhysicalDevice s) \<noteq> VK_FORMAT_MAX_ENUM) s)]"

definition choose_present_mode :: "driver \<Rightarrow> (state \<Rightarrow> state) list" where
  "choose_present_mode drv =
     [VK_CHECK_ERROR (vkResult drv) 235 (vkGetPhysicalDeviceSurfacePresentModesKHR Count),
      VK_CHECK_ERROR (vkResult drv) 241 (vkGetPhysicalDeviceSurfacePresentModesKHR Fill),
      (\<lambda>s. c_assert 253
             (presentModeIndex (mPhysicalDevice s) \<noteq> VK_PRESENT_MODE_MAX_ENUM_KHR) s)]"

definition create_swapchain :: "driver \<Rightarrow> (state \<Rightarrow> state) list" where
  "create_swapchain drv =
     [(\<lambda>s. in_bounds 259 (surfaceFormatIndex (mPhysicalDevice s))
             (length (surfaceFormats (mPhysicalDevice s))) s),
      (\<lambda>s. in_bounds 267 (presentModeIndex (mPhysicalDevice s))
             (length (presentModes (mPhysicalDevice s))) s),
      (\<lambda>s. VK_CHECK_ERROR (vkResult drv) 270
             (vkCreateSwapchainKHR (swapchainCreateInfo (mPhysicalDevice s))) s),
      VK_CHECK_ERROR (vkResult drv) 273 (vkGetSwapchainImagesKHR Count),
      (\<lambda>s. s\<lparr>mSwapchainImages := swapchainImages drv\<rparr>),
      VK_CHECK_ERROR (vkResult drv) 276 (vkGetSwapchainImagesKHR Fill)]"

definition create_command_buffer :: "driver \<Rightarrow> (state \<Rightarrow> state) list" where
  "create_command_buffer drv =
     [(\<lambda>s. VK_CHECK_ERROR (vkResult drv) 291
             (vkCreateCommandPool
                (VK_COMMAND_POOL_CREATE_TRANSIENT_BIT
                   OR VK_COMMAND_POOL_CREATE_RESET_COMMAND_BUFFER_BIT)
                (mQueueFamilyIndex s)) s),
      VK_CHECK_ERROR (vkResult drv) 303 vkAllocateCommandBuffers]"

definition transition_image_layouts :: "driver \<Rightarrow> (state \<Rightarrow> state) list" where
  "transition_image_layouts drv =
     [VK_CHECK_ERROR (vkResult drv) 313
        (vkBeginCommandBuffer VK_COMMAND_BUFFER_USAGE_ONE_TIME_SUBMIT_BIT),
      (\<lambda>s. exec (map (\<lambda>img. invoke (vkCmdPipelineBarrier VK_PIPELINE_STAGE_TOP_OF_PIPE_BIT
                                        VK_PIPELINE_STAGE_BOTTOM_OF_PIPE_BIT (layoutBarrier img)))
                    (mSwapchainImages s)) s),
      VK_CHECK_ERROR (vkResult drv) 352 vkEndCommandBuffer,
      VK_CHECK_ERROR (vkResult drv) 363 (vkQueueSubmit [] [] []),
      VK_CHECK_ERROR (vkResult drv) 364 vkQueueWaitIdle]"

definition create_sync_objects :: "driver \<Rightarrow> (state \<Rightarrow> state) list" where
  "create_sync_objects drv =
     [VK_CHECK_ERROR (vkResult drv) 373 vkCreateFence,
      VK_CHECK_ERROR (vkResult drv) 382 (vkCreateSemaphore mImageAcquisitionSemaphore),
      VK_CHECK_ERROR (vkResult drv) 383 (vkCreateSemaphore mRenderCompletionSemaphore)]"

definition VkRenderer_ctor :: "driver \<Rightarrow> state \<Rightarrow> state" where
  "VkRenderer_ctor drv = exec
     (create_instance drv @ select_physical_device drv @ create_device drv @
      create_surface drv @ query_surface_capabilities drv @ choose_surface_format drv @
      choose_present_mode drv @ create_swapchain drv @ create_command_buffer drv @
      transition_image_layouts drv @ create_sync_objects drv)"

definition VkRenderer_dtor :: "state \<Rightarrow> state" where
  "VkRenderer_dtor = exec
     [invoke (vkDestroySemaphore mImageAcquisitionSemaphore),
      invoke (vkDestroySemaphore mRenderCompletionSemaphore),
      invoke (vkDestroyFence mFence),
      invoke (vkFreeCommandBuffers mCommandBuffer),
      invoke (vkDestroyCommandPool mCommandPool),
      invoke (vkDestroySwapchainKHR mSwapchain),
      invoke (vkDestroySurfaceKHR mSurface),
      invoke (vkDestroyDevice mDevice),
      invoke (vkDestroyInstance mInstance)]"

text \<open>Which member a call creates, and which member a call destroys.\<close>

fun created :: "vk_call \<Rightarrow> handle option" where
  "created (vkCreateInstance layers exts) = Some mInstance"
| "created (vkCreateDevice i exts) = Some mDevice"
| "created vkCreateAndroidSurfaceKHR = Some mSurface"
| "created (vkCreateSwapchainKHR info) = Some mSwapchain"
| "created (vkCreateCommandPool flags i) = Some mCommandPool"
| "created vkAllocateCommandBuffers = Some mCommandBuffer"
| "created vkCreateFence = Some mFence"
| "created (vkCreateSemaphore h) = Some h"
| "created _ = None"

fun destroyed :: "vk_call \<Rightarrow> handle option" where
  "destroyed (vkDestroySemaphore h) = Some h"
| "destroyed (vkDestroyFence h) = Some h"
| "destroyed (vkFreeCommandBuffers h) = Some h"
| "destroyed (vkDestroyCommandPool h) = Some h"
| "destroyed (vkDestroySwapchainKHR h) = Some h"
| "destroyed (vkDestroySurfaceKHR h) = Some h"
| "destroyed (vkDestroyDevice h) = Some h"
| "destroyed (vkDestroyInstance h) = Some h"
| "destroyed _ = None"

definition creation_order :: "vk_call list \<Rightarrow> handle list" where
  "creation_order cs = List.map_filter created cs"

definition destruction_order :: "vk_call list \<Rightarrow> handle list" where
  "destruction_order cs = List.map_filter destroyed cs"

section \<open>The motion-event filter of \<open>hello-vulkan\<close>\<close>

text \<open>Constants of the Android NDK header \<open>android/input.h\<close>.\<close>

definition AINPUT_SOURCE_CLASS_MASK :: "32 word" where
  "AINPUT_SOURCE_CLASS_MASK = 0x000000ff"

definition AINPUT_SOURCE_CLASS_POINTER :: "32 word" where
  "AINPUT_SOURCE_CLASS_POINTER = 0x00000002"

definition AINPUT_SOURCE_CLASS_JOYSTICK :: "32 word" where
  "AINPUT_SOURCE_CLASS_JOYSTICK = 0x00000010"

record GameActivityMotionEvent =
  deviceId :: "32 word"
  source :: "32 word"
  action :: "32 word"

definition sourceClass :: "'a GameActivityMotionEvent_scheme \<Rightarrow> 32 word" where
  "sourceClass motionEvent = source motionEvent AND AINPUT_SOURCE_CLASS_MASK"

definition motion_event_filter_func :: "'a GameActivityMotionEvent_scheme \<Rightarrow> bool" where
  "motion_event_filter_func motionEvent =
     (sourceClass motionEvent = AINPUT_SOURCE_CLASS_POINTER \<or>
      sourceClass motionEvent = AINPUT_SOURCE_CLASS_JOYSTICK)"


section \<open>The calls of one frame\<close>

text \<open>
  The calls that one \<open>render\<close> issues when nothing fails, in program order, and the
  number of them that are issued before the first failure stops the process.
\<close>

definition frame_calls :: "frame \<Rightarrow> state \<Rightarrow> vk_call list" where
  "frame_calls fr s = 
     [vkAcquireNextImageKHR UINT64_MAX mImageAcquisitionSemaphore mFence,
      vkWaitForFences [mFence] True UINT64_MAX,
      vkResetFences [mFence],
      vkResetCommandBuffer 0,
      vkBeginCommandBuffer VK_COMMAND_BUFFER_USAGE_ONE_TIME_SUBMIT_BIT,
      vkCmdPipelineBarrier VK_PIPELINE_STAGE_TOP_OF_PIPE_BIT VK_PIPELINE_STAGE_TRANSFER_BIT
         (imageMemoryBarrierForClearColorImage (swapchainImage fr s)),
      vkCmdClearColorImage (swapchainImage fr s) VK_IMAGE_LAYOUT_TRANSFER_DST_OPTIMAL
         (update_clear_color (mClearColorValue s)),
      vkCmdPipelineBarrier VK_PIPELINE_STAGE_TRANSFER_BIT VK_PIPELINE_STAGE_BOTTOM_OF_PIPE_BIT
         (imageMemoryBarrierForPresentSwapchainImage (swapchainImage fr s)),
      vkEndCommandBuffer,
      vkQueueSubmit [mImageAcquisitionSemaphore] [VK_PIPELINE_STAGE_TRANSFER_BIT]
         [mRenderCompletionSemaphore],
      vkQueuePresentKHR [mRenderCompletionSemaphore] (swapchainImageIndex fr)]"

definition issued :: "frame \<Rightarrow> state \<Rightarrow> nat" where
  "issued fr s =
     (if frameResult fr (frame_calls fr s ! 0) \<noteq> VK_SUCCESS then 1
      else if \<not> swapchainImageIndex fr < length (mSwapchainImages s) then 1
      else if frameResult fr (frame_calls fr s ! 1) \<noteq> VK_SUCCESS then 2
      else if frameResult fr (frame_calls fr s ! 2) \<noteq> VK_SUCCESS then 3
      else if frameResult fr (frame_calls fr s ! 4) \<noteq> VK_SUCCESS then 5
      else if frameResult fr (frame_calls fr s ! 8) \<noteq> VK_SUCCESS then 9
      else if frameResult fr (frame_calls fr s ! 9) \<noteq> VK_SUCCESS then 10
      else 11)"

definition render_calls :: "frame \<Rightarrow> state \<Rightarrow> vk_call list" where
  "render_calls fr s = drop (length (calls s)) (calls (render fr s))"

fun records :: "vk_call \<Rightarrow> bool" where
  "records (vkResetCommandBuffer flags) = True"
| "records (vkBeginCommandBuffer flags) = True"
| "records (vkCmdPipelineBarrier src dst barrier) = True"
| "records (vkCmdClearColorImage img layout color) = True"
| "records vkEndCommandBuffer = True"
| "records _ = False"

text \<open>
  Modelled from the spec: the state of the fence, which the driver keeps.  The fence is
  signaled when an operation that it was handed to completes; among the calls of the
  renderer only the acquisition of an image is handed the fence.  A successful
  \<open>vkResetFences\<close> leaves it unsignaled.  So after a sequence of calls the fence is
  unsignaled for certain when a reset of it has succeeded and it has not been handed to
  an acquisition since; \<open>res\<close> is the status the driver returns for each call.
\<close>

fun fence_step :: "(vk_call \<Rightarrow> VkResult) \<Rightarrow> bool \<Rightarrow> vk_call \<Rightarrow> bool" where
  \<comment> \<open>Modelled from the spec: whether the fence is unsignaled for certain after one more call\<close>
  "fence_step res unsignaled (vkResetFences fences) =
     (if mFence \<in> set fences \<and> res (vkResetFences fences) = VK_SUCCESS then True
      else unsignaled)"
| "fence_step res unsignaled (vkAcquireNextImageKHR timeout semaphore fence) =
     (if fence = mFence then False else unsignaled)"
| "fence_step res unsignaled c = unsignaled"

definition fence_unsignaled :: "(vk_call \<Rightarrow> VkResult) \<Rightarrow> vk_call list \<Rightarrow> bool" where
  \<comment> \<open>Modelled from the spec: nothing is known of the fence before the first call\<close>
  "fence_unsignaled res cs = foldl (fence_step res) False cs"

section \<open>A construction in which nothing fails\<close>

text \<open>
  The device the constructor works with is the first one enumerated.  The driver
  \<^emph>\<open>succeeds\<close> when every call returns success; the \<^emph>\<open>requirements\<close> are the conditions
  of the assertions of the constructor; \<open>setup_calls\<close> are the calls of a construction in
  which nothing fails, in program order.
\<close>

definition first_device :: "driver \<Rightarrow> physical_device" where
  "first_device drv = physicalDevices drv ! 0"

definition first_device_queue_family :: "driver \<Rightarrow> nat" where
  "first_device_queue_family drv = queueFamilyLoop (queueFamilyProperties (first_device drv)) 0"

definition driver_succeeds :: "driver \<Rightarrow> bool" where
  "driver_succeeds drv = (\<forall>c. vkResult drv c = VK_SUCCESS)"

definition device_requirements :: "driver \<Rightarrow> bool" where
  \<comment> \<open>what the constructor asserts or needs before it looks at formats and present modes\<close>
  "device_requirements drv =
     (length (instanceExtensionNames drv) = 2 \<and>
      0 < length (physicalDevices drv) \<and>
      length (deviceExtensionNames (first_device drv)) = 1 \<and>
      surfaceSupport (first_device drv) (first_device_queue_family drv) \<and>
      compositeAlpha (first_device drv) \<noteq> VK_COMPOSITE_ALPHA_FLAG_BITS_MAX_ENUM_KHR \<and>
      supportedUsageFlags (surfaceCapabilities (first_device drv))
        AND VK_IMAGE_USAGE_COLOR_ATTACHMENT_BIT \<noteq> 0)"

definition reaches_device_creation :: "driver \<Rightarrow> bool" where
  \<comment> \<open>nothing fails between the start of the constructor and the call that creates the device\<close>
  "reaches_device_creation drv =
     (list_all (\<lambda>c. vkResult drv c = VK_SUCCESS)
        [vkEnumerateInstanceLayerProperties Count,
         vkEnumerateInstanceLayerProperties Fill,
         vkEnumerateInstanceExtensionProperties Count,
         vkEnumerateInstanceExtensionProperties Fill,
         vkCreateInstance (instanceLayerNames drv) (instanceExtensionNames drv),
         vkEnumeratePhysicalDevices Count,
         vkEnumeratePhysicalDevices Fill,
         vkEnumerateDeviceExtensionProperties Count,
         vkEnumerateDeviceExtensionProperties Fill] \<and>
      length (instanceExtensionNames drv) = 2 \<and>
      0 < length (physicalDevices drv) \<and>
      length (deviceExtensionNames (first_device drv)) = 1)"

definition setup_succeeds :: "driver \<Rightarrow> bool" where
  \<comment> \<open>no call fails, no assertion fails; the lists are within the range of the loop counters\<close>
  "setup_succeeds drv =
     (driver_succeeds drv \<and> device_requirements drv \<and>
      VK_FORMAT_R8G8B8A8_UNORM \<in> format ` set (surfaceFormats (first_device drv)) \<and>
      length (surfaceFormats (first_device drv)) \<le> VK_FORMAT_MAX_ENUM \<and>
      VK_PRESENT_MODE_FIFO_KHR \<in> set (presentModes (first_device drv)) \<and>
      length (presentModes (first_device drv)) \<le> VK_PRESENT_MODE_MAX_ENUM_KHR)"

definition setup_calls :: "driver \<Rightarrow> vk_call list" where
  "setup_calls drv =
     [vkEnumerateInstanceLayerProperties Count,
      vkEnumerateInstanceLayerProperties Fill,
      vkEnumerateInstanceExtensionProperties Count,
      vkEnumerateInstanceExtensionProperties Fill,
      vkCreateInstance (instanceLayerNames drv) (instanceExtensionNames drv),
      vkEnumeratePhysicalDevices Count,
      vkEnumeratePhysicalDevices Fill,
      vkGetPhysicalDeviceProperties,
      vkGetPhysicalDeviceQueueFamilyProperties Count,
      vkGetPhysicalDeviceQueueFamilyProperties Fill,
      vkEnumerateDeviceExtensionProperties Count,
      vkEnumerateDeviceExtensionProperties Fill,
      vkCreateDevice (first_device_queue_family drv) (deviceExtensionNames (first_device drv)),
      vkGetDeviceQueue (first_device_queue_family drv) 0,
      vkCreateAndroidSurfaceKHR,
      vkGetPhysicalDeviceSurfaceSupportKHR (first_device_queue_family drv),
      vkGetPhysicalDeviceSurfaceCapabilitiesKHR,
      vkGetPhysicalDeviceSurfaceFormatsKHR Count,
      vkGetPhysicalDeviceSurfaceFormatsKHR Fill,
      vkGetPhysicalDeviceSurfacePresentModesKHR Count,
      vkGetPhysicalDeviceSurfacePresentModesKHR Fill,
      vkCreateSwapchainKHR (swapchainCreateInfo (first_device drv)),
      vkGetSwapchainImagesKHR Count,
      vkGetSwapchainImagesKHR Fill,
      vkCreateCommandPool
        (VK_COMMAND_POOL_CREATE_TRANSIENT_BIT OR VK_COMMAND_POOL_CREATE_RESET_COMMAND_BUFFER_BIT)
        (first_device_queue_family drv),
      vkAllocateCommandBuffers,
      vkBeginCommandBuffer VK_COMMAND_BUFFER_USAGE_ONE_TIME_SUBMIT_BIT] @
     map (\<lambda>img. vkCmdPipelineBarrier VK_PIPELINE_STAGE_TOP_OF_PIPE_BIT
                  VK_PIPELINE_STAGE_BOTTOM_OF_PIPE_BIT (layoutBarrier img))
       (swapchainImages drv) @
     [vkEndCommandBuffer,
      vkQueueSubmit [] [] [],
      vkQueueWaitIdle,
      vkCreateFence,
      vkCreateSemaphore mImageAcquisitionSemaphore,
      vkCreateSemaphore mRenderCompletionSemaphore]"

text \<open>The calls that one construction, and one destruction, issue.\<close>

definition ctor_calls :: "driver \<Rightarrow> state \<Rightarrow> vk_call list" where
  "ctor_calls drv s = drop (length (calls s)) (calls (VkRenderer_ctor drv s))"

definition dtor_calls :: "state \<Rightarrow> vk_call list" where
  "dtor_calls s = drop (length (calls s)) (calls (VkRenderer_dtor s))"

section \<open>Sample inputs\<close>

text \<open>A device, a renderer state and driver answers on which the statements below are exercised.\<close>

definition sample_device :: physical_device where
  "sample_device =
     \<lparr>queueFamilyProperties = [0x4, 0xF],
      deviceExtensionProperties = [''VK_KHR_maintenance1'', ''VK_KHR_swapchain''],
      surfaceSupport = (\<lambda>i. True),
      surfaceCapabilities =
        \<lparr>minImageCount = 3, currentExtent = (1080, 2400), supportedTransforms = 0x1,
         currentTransform = 0x1, supportedCompositeAlpha = 0x8, supportedUsageFlags = 0x9F\<rparr>,
      surfaceFormats =
        [\<lparr>format = 44, colorSpace = 0\<rparr>, \<lparr>format = 37, colorSpace = 0\<rparr>,
         \<lparr>format = 37, colorSpace = 1000104001\<rparr>],
      presentModes = [1, 2]\<rparr>"

definition sample_state :: state where
  "sample_state =
     \<lparr>calls = [], messages = [], halted = None, mPhysicalDevice = sample_device,
      mQueueFamilyIndex = 1, mSwapchainImages = [101, 102, 103],
      mClearColorValue = [Finite 0, Finite (1 / 4), Finite (1 / 4), Finite (3 / 4)]\<rparr>"

definition sample_frame :: frame where
  "sample_frame = \<lparr>frameResult = (\<lambda>c. VK_SUCCESS), swapchainImageIndex = 2\<rparr>"

definition reset_failure_frame :: frame where
  "reset_failure_frame =
     \<lparr>frameResult = (\<lambda>c. if c = vkResetCommandBuffer 0 then VK_ERROR_OUT_OF_DEVICE_MEMORY
                          else VK_SUCCESS),
      swapchainImageIndex = 2\<rparr>"

definition sample_driver :: driver where
  "sample_driver =
     \<lparr>vkResult = (\<lambda>c. VK_SUCCESS),
      instanceLayerProperties = [''VK_LAYER_KHRONOS_validation''],
      instanceExtensionProperties =
        [''VK_KHR_surface'', ''VK_KHR_android_surface'', ''VK_EXT_debug_utils''],
      physicalDevices = [sample_device],
      swapchainImages = [101, 102, 103]\<rparr>"

definition compute_only_device :: physical_device where
  "compute_only_device = sample_device\<lparr>queueFamilyProperties := [0x2, 0x4]\<rparr>"

definition two_device_driver :: driver where
  "two_device_driver = sample_driver\<lparr>physicalDevices := [compute_only_device, sample_device]\<rparr>"

definition fresh :: state where
  "fresh =
     \<lparr>calls = [], messages = [], halted = None, mPhysicalDevice = compute_only_device,
      mQueueFamilyIndex = 0, mSwapchainImages = [],
      mClearColorValue = [Finite 0, Finite 0, Finite 0, Finite 1]\<rparr>"

definition no_fifo_driver :: driver where
  "no_fifo_driver = sample_driver\<lparr>physicalDevices := [sample_device\<lparr>presentModes := [0, 1]\<rparr>]\<rparr>"

section \<open>Rounding\<close>

lemma round_half_even_error: "\<bar>of_int (round_half_even q) - q\<bar> \<le> 1 / 2"
  using of_int_floor_le [of q] floor_correct [of q]
  by (auto simp add: round_half_even_def abs_le_iff)

lemma round_half_even_nonneg: "0 \<le> q \<Longrightarrow> 0 \<le> round_half_even q"
  by (auto simp add: round_half_even_def)

lemma bitlen_one: "bitlen 1 = 1"
  by (simp add: bitlen_def floorlog_def)

lemma ilog2_below_two:
  assumes "0 < x" "x < 2"
  shows "ilog2 x \<le> 0"
proof (cases "1 \<le> x")
  case True
  with assms have "\<lfloor>x\<rfloor> = 1"
    by (simp add: floor_unique)
  with True show ?thesis
    by (simp add: ilog2_def bitlen_one)
next
  case False
  then show ?thesis
    using bitlen_nonneg [of "\<lceil>1 / x\<rceil> - 1"] by (simp add: ilog2_def)
qed

lemma ilog2_bounds:
  assumes "0 < x"
  shows "2 powi ilog2 x \<le> x \<and> x < 2 powi (ilog2 x + 1)"
proof (cases "1 \<le> x")
  case True
  define n where "n = \<lfloor>x\<rfloor>"
  from True have n: "0 < n"
    by (simp add: n_def)
  then have b: "2 ^ nat (bitlen n - 1) \<le> n" "n < 2 ^ nat (bitlen n)"
    using bitlen_bounds [of n] by simp_all
  from n have pos: "1 \<le> bitlen n"
    using bitlen_eq_zero_iff [of n] bitlen_nonneg [of n] by linarith
  have "of_int n \<le> x" "x < of_int n + 1"
    using floor_correct [of x] by (simp_all add: n_def)
  moreover from b(1) have "(2::rat) ^ nat (bitlen n - 1) \<le> of_int n"
    by (metis of_int_le_iff of_int_numeral of_int_power)
  moreover from b(2) have "of_int n + 1 \<le> (2::rat) ^ nat (bitlen n)"
    by (metis of_int_le_iff of_int_numeral of_int_power of_int_add of_int_1 zless_imp_add1_zle)
  ultimately have "2 ^ nat (bitlen n - 1) \<le> x" "x < 2 ^ nat (bitlen n)"
    by linarith+
  moreover have "ilog2 x = bitlen n - 1"
    using True by (simp add: ilog2_def n_def)
  moreover have "(2::rat) powi (bitlen n - 1) = 2 ^ nat (bitlen n - 1)"
    "(2::rat) powi (bitlen n - 1 + 1) = 2 ^ nat (bitlen n)"
    using pos by (simp_all add: power_int_def)
  ultimately show ?thesis
    by simp
next
  case False
  define y where "y = 1 / x"
  define m where "m = \<lceil>y\<rceil> - 1"
  from False assms have y: "1 < y"
    by (simp add: y_def)
  then have m: "0 < m"
    unfolding m_def by linarith
  then have b: "2 ^ nat (bitlen m - 1) \<le> m" "m < 2 ^ nat (bitlen m)"
    using bitlen_bounds [of m] by simp_all
  from m have pos: "1 \<le> bitlen m"
    using bitlen_eq_zero_iff [of m] bitlen_nonneg [of m] by linarith
  have "of_int m < y" "y \<le> of_int m + 1"
    unfolding m_def by linarith+
  moreover from b(1) have "(2::rat) ^ nat (bitlen m - 1) \<le> of_int m"
    by (metis of_int_le_iff of_int_numeral of_int_power)
  moreover from b(2) have "of_int m + 1 \<le> (2::rat) ^ nat (bitlen m)"
    by (metis of_int_le_iff of_int_numeral of_int_power of_int_add of_int_1 zless_imp_add1_zle)
  ultimately have yb: "2 ^ nat (bitlen m - 1) < y" "y \<le> 2 ^ nat (bitlen m)"
    by linarith+
  have x: "x = 1 / y"
    using assms by (simp add: y_def)
  from yb(2) y have lower: "1 / 2 ^ nat (bitlen m) \<le> x"
    unfolding x by (intro divide_left_mono) simp_all
  from yb(1) y have upper: "x < 1 / 2 ^ nat (bitlen m - 1)"
    unfolding x by (intro divide_strict_left_mono mult_pos_pos) simp_all
  have "ilog2 x = - bitlen m"
    using False by (simp add: ilog2_def m_def y_def)
  moreover have "(2::rat) powi (- bitlen m) = 1 / 2 ^ nat (bitlen m)"
    using pos by (simp add: power_int_def field_simps)
  moreover have "(2::rat) powi (- bitlen m + 1) = 1 / 2 ^ nat (bitlen m - 1)"
  proof (cases "bitlen m = 1")
    case True
    then show ?thesis by simp
  next
    case False
    with pos have "- bitlen m + 1 < 0" "nat (- (- bitlen m + 1)) = nat (bitlen m - 1)"
      by simp_all
    then show ?thesis
      by (simp add: power_int_def field_simps)
  qed
  ultimately show ?thesis
    using lower upper by simp
qed

lemma ulp_positive: "0 < ulp p emin x"
  by (simp add: ulp_def)

lemma ulp_below_two:
  assumes "0 < x" "x < 2" "emin \<le> 0"
  shows "ulp p emin x \<le> 2 powi (1 - int p)"
proof -
  from assms have "max emin (ilog2 \<bar>x\<bar>) \<le> 0"
    using ilog2_below_two [of x] by simp
  then have "max emin (ilog2 \<bar>x\<bar>) - (int p - 1) \<le> 1 - int p"
    by simp
  then show ?thesis
    unfolding ulp_def by (intro power_int_increasing) simp_all
qed

lemma fp_round_below_two:
  assumes x: "0 \<le> x" "x < 2" and fmt: "emin \<le> 0" "1 \<le> emax" "1 \<le> p"
  shows "\<exists>y. fp_round p emin emax x = Finite y \<and> 0 \<le> y \<and> \<bar>y - x\<bar> \<le> 1 / 2 ^ p"
proof (cases "x = 0")
  case True
  then show ?thesis
    by (simp add: fp_round_def)
next
  case False
  with x have pos: "0 < x"
    by simp
  define u where "u = ulp p emin x"
  define y where "y = u * of_int (round_half_even (x / u))"
  have u0: "0 < u"
    by (simp add: u_def ulp_positive)
  have u1: "u \<le> 2 powi (1 - int p)"
    unfolding u_def using pos x(2) fmt(1) by (rule ulp_below_two)
  have half: "2 powi (1 - int p) / 2 = (1::rat) / 2 ^ p"
    by (simp add: power_int_diff)
  have "y - x = u * (of_int (round_half_even (x / u)) - x / u)"
    using u0 by (simp add: y_def algebra_simps)
  then have "\<bar>y - x\<bar> = u * \<bar>of_int (round_half_even (x / u)) - x / u\<bar>"
    using u0 by (simp add: abs_mult)
  also have "\<dots> \<le> u * (1 / 2)"
    using u0 round_half_even_error [of "x / u"] by (intro mult_left_mono) simp_all
  also have "\<dots> \<le> 1 / 2 ^ p"
    using u1 half by simp
  finally have err: "\<bar>y - x\<bar> \<le> 1 / 2 ^ p" .
  have y0: "0 \<le> y"
    unfolding y_def using u0 pos round_half_even_nonneg [of "x / u"] by simp
  have "(1::rat) / 2 ^ p \<le> 1"
    by simp
  with err x(2) have "y < 4"
    by linarith
  moreover have "(2::rat) powi 2 \<le> 2 powi (emax + 1)"
    using fmt(2) by (intro power_int_increasing) simp_all
  ultimately have "\<bar>y\<bar> < 2 powi (emax + 1)"
    using y0 by simp
  then have "fp_round p emin emax x = Finite y"
    using False by (simp add: fp_round_def overflow_def y_def u_def)
  with y0 err show ?thesis
    by simp
qed


lemma round_double_below_two:
  "0 \<le> x \<Longrightarrow> x < 2 \<Longrightarrow> \<exists>y. round_double x = Finite y \<and> 0 \<le> y \<and> \<bar>y - x\<bar> \<le> 1 / 2 ^ 53"
  unfolding round_double_def by (rule fp_round_below_two) simp_all

lemma round_float_below_two:
  "0 \<le> x \<Longrightarrow> x < 2 \<Longrightarrow> \<exists>y. round_float x = Finite y \<and> 0 \<le> y \<and> \<bar>y - x\<bar> \<le> 1 / 2 ^ 24"
  unfolding round_float_def by (rule fp_round_below_two) simp_all

lemma floor_rat_numeral: "\<lfloor>numeral a / numeral b :: rat\<rfloor> = numeral a div numeral b"
  by (metis floor_divide_of_int_eq of_int_numeral)

lemma floor_rat_one_numeral: "\<lfloor>1 / numeral b :: rat\<rfloor> = 1 div numeral b"
  by (metis floor_divide_of_int_eq of_int_numeral of_int_1)

lemma ceiling_rat_numeral: "\<lceil>numeral a / numeral b :: rat\<rceil> = - (- numeral a div numeral b)"
  by (metis ceiling_divide_eq_div of_int_numeral)

lemma floor_rat_neg_numeral:
  "\<lfloor>- (numeral a / numeral b) :: rat\<rfloor> = - numeral a div numeral b"
  by (metis floor_divide_of_int_eq of_int_neg_numeral of_int_numeral minus_divide_left)

lemma ceiling_rat_neg_numeral:
  "\<lceil>- (numeral a / numeral b) :: rat\<rceil> = - (numeral a div numeral b)"
  by (simp add: ceiling_minus floor_rat_numeral)

lemma powi2: "(2::rat) powi k = (if 0 \<le> k then 2 ^ nat k else 1 / 2 ^ nat (- k))"
  by (simp add: power_int_def field_simps)

lemma bitlen_Bit0: "bitlen (numeral (Num.Bit0 n)) = bitlen (numeral n) + 1"
  by (subst compute_bitlen) simp

lemma bitlen_Bit1: "bitlen (numeral (Num.Bit1 n)) = bitlen (numeral n) + 1"
  by (subst compute_bitlen) simp

lemmas fp_eval = advance_channel_def float_to_double_def round_float_def round_double_def
  fp_round_def ilog2_def round_half_even_def trunc_def ulp_def overflow_def powi2
  bitlen_one bitlen_Bit0 bitlen_Bit1 floor_rat_numeral ceiling_rat_numeral floor_rat_one_numeral
  floor_rat_neg_numeral ceiling_rat_neg_numeral

text \<open>Known roundings: a third, ties to even, subnormals, the overflow threshold.\<close>

lemma rounding_examples:
  "round_float (1 / 3) = Finite (11184811 / 33554432)"
  "round_float 16777217 = Finite 16777216"
  "round_float 16777219 = Finite 16777220"
  "round_float (3 / 2 ^ 150) = Finite (2 / 2 ^ 149)"
  "round_float (1 / 2 ^ 150) = Finite 0"
  "round_float (2 ^ 128 - 2 ^ 103) = PInf"
  "round_float (2 ^ 128 - 2 ^ 103 - 1) = Finite (2 ^ 128 - 2 ^ 104)"
  "round_double (1 / 10) = Finite (3602879701896397 / 36028797018963968)"
  "fmodf (round_float (- 49 / 100)) (Finite 1) = Finite (- (2055209 / 4194304))"
  by (simp_all add: fp_eval)

lemma double_0_01: "round_double (1 / 100) = Finite (5764607523034235 / 576460752303423488)"
  by (simp add: fp_eval)

lemma float_1: "double_to_float (round_double 1) = Finite 1"
  by (simp add: fp_eval)

lemma advance_channel_unit:
  assumes "0 \<le> x" "x < 1"
  shows "\<exists>y k. advance_channel (Finite x) = Finite y \<and> 0 \<le> y \<and> y < 1 \<and>
           0 \<le> k \<and> k \<le> 1 \<and> \<bar>y - (x + 1 / 100 - of_int k)\<bar> \<le> 1 / 2 ^ 23"
proof -
  define c where "c = (5764607523034235 / 576460752303423488 :: rat)"
  have c: "0 \<le> c" "c < 1 / 64" "\<bar>c - 1 / 100\<bar> \<le> 1 / 2 ^ 53"
    by (simp_all add: c_def)
  from assms c have "0 \<le> x + c" "x + c < 2"
    by simp_all
  then obtain d where d: "round_double (x + c) = Finite d" "0 \<le> d" "\<bar>d - (x + c)\<bar> \<le> 1 / 2 ^ 53"
    using round_double_below_two by blast
  have small: "(1::rat) / 2 ^ 53 \<le> 1 / 64" "(1::rat) / 2 ^ 24 \<le> 1 / 64"
    "(1::rat) / 2 ^ 24 + 1 / 2 ^ 53 + 1 / 2 ^ 53 \<le> 1 / 2 ^ 23"
    by simp_all
  from d(3) assms c(2) small(1) have "d < 2"
    by linarith
  with d obtain f where f: "round_float d = Finite f" "0 \<le> f" "\<bar>f - d\<bar> \<le> 1 / 2 ^ 24"
    using round_float_below_two by blast
  from f(3) d(3) assms c(2) small(1,2) have f2: "f < 2"
    by linarith
  define k where "k = \<lfloor>f\<rfloor>"
  define y where "y = f - of_int k"
  have y: "0 \<le> y" "y < 1"
    unfolding y_def k_def using floor_correct [of f] by simp_all
  have "advance_channel (Finite x) = Finite y"
    using d(1) f(1) f(2) by (simp add: advance_channel_def float_to_double_def double_0_01 float_1
        c_def trunc_def y_def k_def)
  moreover have "\<bar>y - (x + 1 / 100 - of_int k)\<bar> \<le> 1 / 2 ^ 23"
    using d(3) f(3) c(3) small(3) unfolding y_def by linarith
  moreover have "0 \<le> k" "k \<le> 1"
    unfolding k_def using f(2) f2 by (simp_all add: floor_le_iff)
  ultimately show ?thesis
    using y by blast
qed

section \<open>Running statements\<close>

lemma exec_Nil: "exec [] s = s"
  by (simp add: exec_def)

lemma exec_stop: "halted s = Some h \<Longrightarrow> exec stmts s = s"
  by (induction stmts) (auto simp add: exec_def)

lemma exec_step: "halted s = None \<Longrightarrow> exec (stmt # stmts) s = exec stmts (stmt s)"
  by (simp add: exec_def)

lemmas run_simps = exec_Nil exec_step exec_stop VK_CHECK_ERROR_def invoke_def in_bounds_def
  c_assert_def

lemma render_halted_state: "halted s = Some h \<Longrightarrow> render fr s = s"
  by (simp add: render_def exec_stop)

lemma render_effect:
  assumes h: "halted s = None"
  shows "calls (render fr s) = calls s @ take (issued fr s) (frame_calls fr s) \<and>
         mClearColorValue (render fr s) =
           (if 5 < issued fr s then update_clear_color (mClearColorValue s)
            else mClearColorValue s) \<and>
         mSwapchainImages (render fr s) = mSwapchainImages s \<and>
         (halted (render fr s) = None \<longleftrightarrow>
            issued fr s = 11 \<and> frameResult fr (frame_calls fr s ! 10) = VK_SUCCESS)"
proof -
  let ?ok = "\<lambda>k. frameResult fr (frame_calls fr s ! k) = VK_SUCCESS"
  let ?inb = "swapchainImageIndex fr < length (mSwapchainImages s)"
  consider (at_acquire) "\<not> ?ok 0"
    | (at_index) "?ok 0" "\<not> ?inb"
    | (at_wait) "?ok 0" "?inb" "\<not> ?ok 1"
    | (at_reset) "?ok 0" "?inb" "?ok 1" "\<not> ?ok 2"
    | (at_begin) "?ok 0" "?inb" "?ok 1" "?ok 2" "\<not> ?ok 4"
    | (at_end) "?ok 0" "?inb" "?ok 1" "?ok 2" "?ok 4" "\<not> ?ok 8"
    | (at_submit) "?ok 0" "?inb" "?ok 1" "?ok 2" "?ok 4" "?ok 8" "\<not> ?ok 9"
    | (at_present) "?ok 0" "?inb" "?ok 1" "?ok 2" "?ok 4" "?ok 8" "?ok 9"
    by blast
  then show ?thesis
  proof cases
    case at_acquire
    with h show ?thesis
      by (simp add: render_def issued_def frame_calls_def run_simps)
  next
    case at_index
    with h show ?thesis
      by (simp add: render_def issued_def frame_calls_def run_simps)
  next
    case at_wait
    with h show ?thesis
      by (simp add: render_def issued_def frame_calls_def run_simps)
  next
    case at_reset
    with h show ?thesis
      by (simp add: render_def issued_def frame_calls_def run_simps)
  next
    case at_begin
    with h show ?thesis
      by (simp add: render_def issued_def frame_calls_def run_simps)
  next
    case at_end
    with h show ?thesis
      by (simp add: render_def issued_def frame_calls_def run_simps swapchainImage_def)
  next
    case at_submit
    with h show ?thesis
      by (simp add: render_def issued_def frame_calls_def run_simps swapchainImage_def)
  next
    case at_present
    with h show ?thesis
      by (cases "frameResult fr (frame_calls fr s ! 10) = VK_SUCCESS")
        (simp_all add: render_def issued_def frame_calls_def run_simps swapchainImage_def)
  qed
qed

lemma render_calls_eq:
  "render_calls fr s = (if halted s = None then take (issued fr s) (frame_calls fr s) else [])"
  by (cases "halted s") (simp_all add: render_calls_def render_effect render_halted_state)

lemma length_frame_calls: "length (frame_calls fr s) = 11"
  by (simp add: frame_calls_def)

lemma issued_le: "issued fr s \<le> 11"
  by (simp add: issued_def)

lemma issued_gt_3:
  "3 < issued fr s \<Longrightarrow>
     frameResult fr (vkWaitForFences [mFence] True UINT64_MAX) = VK_SUCCESS \<and>
     frameResult fr (vkResetFences [mFence]) = VK_SUCCESS"
  by (simp add: issued_def frame_calls_def split: if_splits)

lemma records_frame_calls: "k < 3 \<Longrightarrow> \<not> records (frame_calls fr s ! k)"
proof -
  assume "k < 3"
  then consider "k = 0" | "k = 1" | "k = 2" by linarith
  then show ?thesis by cases (simp_all add: frame_calls_def)
qed

lemma issued_sample: "issued sample_frame sample_state = 11"
  by (simp add: issued_def sample_frame_def sample_state_def)

lemma render_calls_sample:
  "render_calls sample_frame sample_state = frame_calls sample_frame sample_state"
  by (simp add: render_calls_eq issued_sample length_frame_calls) (simp add: sample_state_def)

section \<open>Ordering and synchronisation within a frame\<close>

text \<open>
  Claim C4, as amended.  In every call of \<open>render\<close>, a call that resets or records the
  command buffer (\<open>vkResetCommandBuffer\<close>, \<open>vkBeginCommandBuffer\<close>, the recorded
  commands, \<open>vkEndCommandBuffer\<close>) is issued only after the fence has been waited on,
  for all fences and without time limit, with status success, so that the fence was
  observed signaled, and has then been reset with status success.  Since the reset
  comes before and the fence is not handed to the driver again within the call,
  recording begins, and goes on, while the fence is unsignaled.
\<close>

theorem render_fence_before_recording:
  "\<forall>k < length (render_calls fr s).
     records (render_calls fr s ! k) \<longrightarrow>
       (\<exists>i j. i < j \<and> j < k \<and>
          render_calls fr s ! i = vkWaitForFences [mFence] True UINT64_MAX \<and>
          frameResult fr (render_calls fr s ! i) = VK_SUCCESS \<and>
          render_calls fr s ! j = vkResetFences [mFence] \<and>
          frameResult fr (render_calls fr s ! j) = VK_SUCCESS) \<and>
       fence_unsignaled (frameResult fr) (take k (render_calls fr s))"
proof (intro allI impI)
  fix k
  assume k: "k < length (render_calls fr s)" and rec: "records (render_calls fr s ! k)"
  from k have h: "halted s = None"
    by (auto simp add: render_calls_eq split: if_splits)
  then have new: "render_calls fr s = take (issued fr s) (frame_calls fr s)"
    by (simp add: render_calls_eq)
  from k new have ki: "k < issued fr s"
    by simp
  with rec new have "records (frame_calls fr s ! k)"
    by simp
  then have k3: "3 \<le> k"
    using records_frame_calls [of k fr s] by (cases "k < 3") auto
  with ki have "3 < issued fr s"
    by simp
  then have ok: "frameResult fr (vkWaitForFences [mFence] True UINT64_MAX) = VK_SUCCESS"
      "frameResult fr (vkResetFences [mFence]) = VK_SUCCESS"
    using issued_gt_3 by blast+
  from ki k3 have "render_calls fr s ! 1 = vkWaitForFences [mFence] True UINT64_MAX"
      "render_calls fr s ! 2 = vkResetFences [mFence]"
    by (simp_all add: new frame_calls_def)
  with ok k3 have order: "\<exists>i j. i < j \<and> j < k \<and>
          render_calls fr s ! i = vkWaitForFences [mFence] True UINT64_MAX \<and>
          frameResult fr (render_calls fr s ! i) = VK_SUCCESS \<and>
          render_calls fr s ! j = vkResetFences [mFence] \<and>
          frameResult fr (render_calls fr s ! j) = VK_SUCCESS"
    by (intro exI [of _ 1] exI [of _ 2]) simp
  from ki have prefix: "take k (render_calls fr s) = take k (frame_calls fr s)"
    by (simp add: new min_def)
  from ki issued_le [of fr s] k3 have "k = 3 \<or> k = 4 \<or> k = 5 \<or> k = 6 \<or> k = 7 \<or> k = 8
      \<or> k = 9 \<or> k = 10"
    by arith
  then consider "k = 3" | "k = 4" | "k = 5" | "k = 6" | "k = 7" | "k = 8" | "k = 9" | "k = 10"
    by blast
  then have "fence_unsignaled (frameResult fr) (take k (frame_calls fr s))"
    using ok(2) by cases (simp_all add: fence_unsignaled_def frame_calls_def)
  with order prefix
  show "(\<exists>i j. i < j \<and> j < k \<and>
          render_calls fr s ! i = vkWaitForFences [mFence] True UINT64_MAX \<and>
          frameResult fr (render_calls fr s ! i) = VK_SUCCESS \<and>
          render_calls fr s ! j = vkResetFences [mFence] \<and>
          frameResult fr (render_calls fr s ! j) = VK_SUCCESS) \<and>
       fence_unsignaled (frameResult fr) (take k (render_calls fr s))"
    by simp
qed

theorem render_fence_before_recording_witness:
  "4 < length (render_calls sample_frame sample_state) \<and>
   records (render_calls sample_frame sample_state ! 4) \<and>
   (\<exists>i j. i < j \<and> j < 4 \<and>
      render_calls sample_frame sample_state ! i = vkWaitForFences [mFence] True UINT64_MAX \<and>
      frameResult sample_frame (render_calls sample_frame sample_state ! i) = VK_SUCCESS \<and>
      render_calls sample_frame sample_state ! j = vkResetFences [mFence] \<and>
      frameResult sample_frame (render_calls sample_frame sample_state ! j) = VK_SUCCESS) \<and>
   fence_unsignaled (frameResult sample_frame) (take 4 (render_calls sample_frame sample_state))"
proof -
  have len: "4 < length (render_calls sample_frame sample_state)"
    by (simp add: render_calls_sample length_frame_calls)
  have rec: "records (render_calls sample_frame sample_state ! 4)"
    by (simp add: render_calls_sample frame_calls_def)
  from render_fence_before_recording [of sample_frame sample_state] len rec show ?thesis
    by blast
qed

text \<open>
  The claim as stated fails in its last part: re-recording begins while the fence is
  unsignaled.  In a call in which nothing fails, the call issued directly before the
  reset of the command buffer is the successful reset of the fence.  Before the wait,
  where the fence has just been handed to the acquisition, it is not known to be
  unsignaled.
\<close>

theorem recording_begins_with_fence_unsignaled:
  "halted (render sample_frame sample_state) = None \<and>
   render_calls sample_frame sample_state ! 2 = vkResetFences [mFence] \<and>
   frameResult sample_frame (vkResetFences [mFence]) = VK_SUCCESS \<and>
   render_calls sample_frame sample_state ! 3 = vkResetCommandBuffer 0 \<and>
   records (render_calls sample_frame sample_state ! 3) \<and>
   fence_unsignaled (frameResult sample_frame) (take 3 (render_calls sample_frame sample_state)) \<and>
   \<not> fence_unsignaled (frameResult sample_frame) (take 1 (render_calls sample_frame sample_state))"
proof -
  have "halted sample_state = None"
    by (simp add: sample_state_def)
  then have "halted (render sample_frame sample_state) = None"
    using render_effect [of sample_state sample_frame]
    by (simp add: issued_sample) (simp add: sample_frame_def)
  then show ?thesis
    unfolding render_calls_sample
    by (simp add: frame_calls_def fence_unsignaled_def) (simp add: sample_frame_def)
qed



section \<open>Checking of statuses\<close>

text \<open>
  Claim C2.  Every fallible call of \<open>render\<close> is wrapped in \<open>VK_CHECK_ERROR\<close> but one:
  the status of \<open>vkResetCommandBuffer\<close> is discarded.  When that call fails and every
  other call succeeds, nothing is logged, the process is not terminated, and recording
  begins on the command buffer whose reset failed.
\<close>

theorem render_ignores_vkResetCommandBuffer_status:
  "frameResult reset_failure_frame (vkResetCommandBuffer 0) = VK_ERROR_OUT_OF_DEVICE_MEMORY \<and>
   render_calls reset_failure_frame sample_state ! 3 = vkResetCommandBuffer 0 \<and>
   render_calls reset_failure_frame sample_state ! 4 =
     vkBeginCommandBuffer VK_COMMAND_BUFFER_USAGE_ONE_TIME_SUBMIT_BIT \<and>
   length (render_calls reset_failure_frame sample_state) = 11 \<and>
   messages (render reset_failure_frame sample_state) = [] \<and>
   halted (render reset_failure_frame sample_state) = None"
  by (simp add: render_calls_def render_def run_simps reset_failure_frame_def sample_state_def)

section \<open>The clear colour\<close>

lemma upt_4: "[0..<4] = [0, 1, 2, 3]"
  by (simp add: upt_rec)

lemma update_clear_color_map:
  "length cs = 4 \<Longrightarrow> update_clear_color cs = map advance_channel cs"
proof -
  assume "length cs = 4"
  then obtain a b c d where "cs = [a, b, c, d]"
    by (auto simp add: length_Suc_conv numeral_eq_Suc)
  then show ?thesis
    by (simp add: update_clear_color_def upt_4)
qed



lemma render_not_halted:
  assumes "halted (render fr s) = None"
  shows "halted s = None \<and>
         mClearColorValue (render fr s) = update_clear_color (mClearColorValue s)"
proof (cases "halted s")
  case None
  with assms show ?thesis
    using render_effect [of s fr] by simp
next
  case (Some h)
  with assms show ?thesis
    by (simp add: render_halted_state)
qed

lemma render_n_not_halted:
  "halted (render_n frames N s) = None \<Longrightarrow>
     mClearColorValue (render_n frames N s) = (update_clear_color ^^ N) (mClearColorValue s)"
proof (induction N)
  case 0
  then show ?case by simp
next
  case (Suc N)
  from Suc.prems have "halted (render (frames N) (render_n frames N s)) = None"
    by simp
  then have "halted (render_n frames N s) = None"
      "mClearColorValue (render (frames N) (render_n frames N s)) =
         update_clear_color (mClearColorValue (render_n frames N s))"
    using render_not_halted by blast+
  with Suc.IH show ?case
    by simp
qed

lemma length_update_clear_color: "length (update_clear_color cs) = length cs"
  by (simp add: update_clear_color_def upt_4)

lemma update_clear_color_funpow:
  "length cs = 4 \<Longrightarrow> (update_clear_color ^^ N) cs = map (advance_channel ^^ N) cs"
proof (induction N)
  case 0
  then show ?case by (simp add: map_idI)
next
  case (Suc N)
  then have "length ((update_clear_color ^^ N) cs) = 4"
    by simp
  with Suc show ?case
    by (simp add: update_clear_color_map)
qed

lemma advance_channel_drift:
  assumes "0 \<le> x" "x < 1"
  shows "\<exists>y k. (advance_channel ^^ N) (Finite x) = Finite y \<and> 0 \<le> y \<and> y < 1 \<and>
           0 \<le> k \<and> k \<le> int N \<and>
           \<bar>y - (x + of_nat N / 100 - of_int k)\<bar> \<le> of_nat N / 2 ^ 23"
proof (induction N)
  case 0
  from assms show ?case
    by (intro exI [of _ x] exI [of _ 0]) simp
next
  case (Suc N)
  then obtain y k where y: "(advance_channel ^^ N) (Finite x) = Finite y" "0 \<le> y" "y < 1"
      "\<bar>y - (x + of_nat N / 100 - of_int k)\<bar> \<le> of_nat N / 2 ^ 23"
      and k: "0 \<le> k" "k \<le> int N"
    by blast
  from y(2,3) obtain z j where z: "advance_channel (Finite y) = Finite z" "0 \<le> z" "z < 1"
      "\<bar>z - (y + 1 / 100 - of_int j)\<bar> \<le> 1 / 2 ^ 23"
      and j: "0 \<le> j" "j \<le> 1"
    using advance_channel_unit by blast
  have "(advance_channel ^^ Suc N) (Finite x) = Finite z"
    using y(1) z(1) by simp
  moreover have "\<bar>z - (x + of_nat (Suc N) / 100 - of_int (k + j))\<bar> \<le> of_nat (Suc N) / 2 ^ 23"
  proof -
    have "z - (x + of_nat (Suc N) / 100 - of_int (k + j)) =
        (z - (y + 1 / 100 - of_int j)) + (y - (x + of_nat N / 100 - of_int k))"
      by (simp add: field_simps)
    moreover have "of_nat (Suc N) / 2 ^ 23 = (1::rat) / 2 ^ 23 + of_nat N / 2 ^ 23"
      by (simp add: field_simps)
    ultimately show ?thesis
      using y(4) z(4) by linarith
  qed
  moreover from k j have "0 \<le> k + j" "k + j \<le> int (Suc N)"
    by simp_all
  ultimately show ?case
    using z(2,3) by blast
qed

lemma render_n_sample:
  "halted (render_n (\<lambda>k. sample_frame) N sample_state) = None \<and>
   mSwapchainImages (render_n (\<lambda>k. sample_frame) N sample_state) = mSwapchainImages sample_state"
proof (induction N)
  case 0
  show ?case by (simp add: sample_state_def)
next
  case (Suc N)
  let ?s = "render_n (\<lambda>k. sample_frame) N sample_state"
  from Suc have h: "halted ?s = None" and img: "mSwapchainImages ?s = mSwapchainImages sample_state"
    by simp_all
  from img have "issued sample_frame ?s = 11"
    by (simp add: issued_def sample_frame_def) (simp add: sample_state_def)
  with h img show ?case
    using render_effect [of ?s sample_frame] by (simp add: sample_frame_def)
qed




lemma funpow_10: "(f ^^ 10) x = f (f (f (f (f (f (f (f (f (f x)))))))))"
  by (simp add: numeral_eq_Suc)

lemma funpow_100: "(f ^^ 100) x = ((f ^^ 10) ^^ 10) x" for f :: "'a \<Rightarrow> 'a"
  by (simp add: funpow_mult)

lemma advance_channel_10_0:
  "(advance_channel ^^ 10) (Finite 0) = Finite (3355443 / 33554432)"
  unfolding funpow_10 by (simp add: fp_eval)

lemma advance_channel_10_1:
  "(advance_channel ^^ 10) (Finite (3355443 / 33554432)) = Finite (13421775 / 67108864)"
  unfolding funpow_10 by (simp add: fp_eval)

lemma advance_channel_10_2:
  "(advance_channel ^^ 10) (Finite (13421775 / 67108864)) = Finite (5033165 / 16777216)"
  unfolding funpow_10 by (simp add: fp_eval)

lemma advance_channel_10_3:
  "(advance_channel ^^ 10) (Finite (5033165 / 16777216)) = Finite (6710885 / 16777216)"
  unfolding funpow_10 by (simp add: fp_eval)

lemma advance_channel_10_4:
  "(advance_channel ^^ 10) (Finite (6710885 / 16777216)) = Finite (8388605 / 16777216)"
  unfolding funpow_10 by (simp add: fp_eval)

lemma advance_channel_10_5:
  "(advance_channel ^^ 10) (Finite (8388605 / 16777216)) = Finite (10066325 / 16777216)"
  unfolding funpow_10 by (simp add: fp_eval)

lemma advance_channel_10_6:
  "(advance_channel ^^ 10) (Finite (10066325 / 16777216)) = Finite (11744045 / 16777216)"
  unfolding funpow_10 by (simp add: fp_eval)

lemma advance_channel_10_7:
  "(advance_channel ^^ 10) (Finite (11744045 / 16777216)) = Finite (13421765 / 16777216)"
  unfolding funpow_10 by (simp add: fp_eval)

lemma advance_channel_10_8:
  "(advance_channel ^^ 10) (Finite (13421765 / 16777216)) = Finite (15099485 / 16777216)"
  unfolding funpow_10 by (simp add: fp_eval)

lemma advance_channel_10_9:
  "(advance_channel ^^ 10) (Finite (15099485 / 16777216)) = Finite (16777205 / 16777216)"
  unfolding funpow_10 by (simp add: fp_eval)

lemma advance_channel_100:
  "(advance_channel ^^ 100) (Finite 0) = Finite (16777205 / 16777216)"
  unfolding funpow_100 funpow_10 [of "advance_channel ^^ 10"]
  by (simp only: advance_channel_10_0 advance_channel_10_1 advance_channel_10_2 advance_channel_10_3 advance_channel_10_4 advance_channel_10_5 advance_channel_10_6 advance_channel_10_7 advance_channel_10_8 advance_channel_10_9)

section \<open>The clear colour over many frames\<close>

text \<open>
  Claim C1, as amended.  For every \<open>N\<close> and every starting state whose four channels are
  numbers in the interval from 0 (included) to 1 (excluded): when \<open>N\<close> calls of \<open>render\<close>
  have all returned, each channel is again in that interval and equals its start value
  plus \<open>N \<times> 0.01\<close> minus a whole number \<open>k\<close> of wrap-arounds, \<open>0 \<le> k \<le> N\<close>, up to an
  error of at most \<open>N / 2 ^ 23\<close>.  The advance is exact only up to that rounding error
  of the binary32 and binary64 operations.
\<close>

theorem render_n_clear_color_drift:
  assumes len: "length (mClearColorValue s) = 4"
    and unit: "\<forall>c \<in> set (mClearColorValue s). in_unit_interval c"
    and run: "halted (render_n frames N s) = None"
  shows "\<forall>i < 4. \<exists>x y k.
           mClearColorValue s ! i = Finite x \<and>
           mClearColorValue (render_n frames N s) ! i = Finite y \<and> 0 \<le> y \<and> y < 1 \<and>
           0 \<le> k \<and> k \<le> int N \<and>
           \<bar>y - (x + of_nat N / 100 - of_int k)\<bar> \<le> of_nat N / 2 ^ 23"
proof (intro allI impI)
  fix i :: nat
  assume i: "i < 4"
  from run len have after: "mClearColorValue (render_n frames N s) =
      map (advance_channel ^^ N) (mClearColorValue s)"
    by (simp add: render_n_not_halted update_clear_color_funpow)
  from i len unit have "in_unit_interval (mClearColorValue s ! i)"
    by simp
  then obtain x where x: "mClearColorValue s ! i = Finite x" "0 \<le> x" "x < 1"
    by (cases "mClearColorValue s ! i") simp_all
  from x(2,3) obtain y k where "(advance_channel ^^ N) (Finite x) = Finite y" "0 \<le> y" "y < 1"
      "0 \<le> k" "k \<le> int N"
      "\<bar>y - (x + of_nat N / 100 - of_int k)\<bar> \<le> of_nat N / 2 ^ 23"
    using advance_channel_drift by blast
  with x(1) i len after
  show "\<exists>x y k.
           mClearColorValue s ! i = Finite x \<and>
           mClearColorValue (render_n frames N s) ! i = Finite y \<and> 0 \<le> y \<and> y < 1 \<and>
           0 \<le> k \<and> k \<le> int N \<and>
           \<bar>y - (x + of_nat N / 100 - of_int k)\<bar> \<le> of_nat N / 2 ^ 23"
    by auto
qed


text \<open>
  The claim as stated fails.  From the channel value 0.0, 100 calls lead to
  \<open>16777205 / 16777216\<close> (about 0.99999934) and not back to 0.0; a single call leads to
  \<open>5368709 / 536870912\<close> and not to 0.01; and from the channel value \<open>16777216\<close>
  (outside the unit interval) a single call leads to 0.0 and not to 0.01.  After the 100
  calls the channel is not near the remainder of \<open>0.0 + 100 \<times> 0.01\<close> modulo 1.0, which
  is 0.0, but just below 1.0: no wrap-around has taken place.
\<close>

theorem render_100_does_not_return_to_start:
  "halted (render_n (\<lambda>k. sample_frame) 100 sample_state) = None \<and>
   mClearColorValue sample_state ! 0 = Finite 0 \<and>
   mClearColorValue (render_n (\<lambda>k. sample_frame) 100 sample_state) ! 0 =
     Finite (16777205 / 16777216) \<and>
   mClearColorValue (render_n (\<lambda>k. sample_frame) 100 sample_state) ! 0 \<noteq>
     mClearColorValue sample_state ! 0 \<and>
   mClearColorValue (render_n (\<lambda>k. sample_frame) 1 sample_state) ! 0 =
     Finite (5368709 / 536870912) \<and>
   mClearColorValue
     (render sample_frame
        (sample_state\<lparr>mClearColorValue := replicate 4 (Finite 16777216)\<rparr>)) ! 0 = Finite 0"
proof -
  have h: "\<And>N. halted (render_n (\<lambda>k. sample_frame) N sample_state) = None"
    using render_n_sample by blast
  have len: "length (mClearColorValue sample_state) = 4"
    by (simp add: sample_state_def)
  have start: "mClearColorValue sample_state ! 0 = Finite 0"
    by (simp add: sample_state_def)
  have "\<And>N. mClearColorValue (render_n (\<lambda>k. sample_frame) N sample_state) ! 0 =
      (advance_channel ^^ N) (Finite 0)"
    using h len start by (simp add: render_n_not_halted update_clear_color_funpow)
  then have after: "mClearColorValue (render_n (\<lambda>k. sample_frame) 100 sample_state) ! 0 =
      Finite (16777205 / 16777216)"
    "mClearColorValue (render_n (\<lambda>k. sample_frame) 1 sample_state) ! 0 =
      Finite (5368709 / 536870912)"
    by (simp_all only: advance_channel_100) (simp add: fp_eval)
  let ?big = "sample_state\<lparr>mClearColorValue := replicate 4 (Finite 16777216)\<rparr>"
  have "halted ?big = None" "issued sample_frame ?big = 11"
    by (simp_all add: issued_def sample_frame_def sample_state_def)
  then have "mClearColorValue (render sample_frame ?big) =
      update_clear_color (replicate 4 (Finite 16777216))"
    using render_effect [of ?big sample_frame] by simp
  also have "\<dots> ! 0 = advance_channel (Finite 16777216)"
    by (simp add: update_clear_color_map numeral_eq_Suc)
  also have "\<dots> = Finite 0"
    by (simp add: fp_eval)
  finally have big: "mClearColorValue (render sample_frame ?big) ! 0 = Finite 0" .
  from h start after big show ?thesis
    by simp
qed

theorem render_n_clear_color_drift_witness:
  "length (mClearColorValue sample_state) = 4 \<and>
   list_all in_unit_interval (mClearColorValue sample_state) \<and>
   halted (render_n (\<lambda>k. sample_frame) 100 sample_state) = None \<and>
   (\<exists>x y k. mClearColorValue sample_state ! 0 = Finite x \<and>
      mClearColorValue (render_n (\<lambda>k. sample_frame) 100 sample_state) ! 0 = Finite y \<and>
      0 \<le> y \<and> y < 1 \<and> 0 \<le> k \<and> k \<le> int 100 \<and>
      \<bar>y - (x + of_nat 100 / 100 - of_int k)\<bar> \<le> of_nat 100 / 2 ^ 23)"
proof -
  have len: "length (mClearColorValue sample_state) = 4"
    by (simp add: sample_state_def)
  have unit: "list_all in_unit_interval (mClearColorValue sample_state)"
    by (simp add: sample_state_def)
  have run: "halted (render_n (\<lambda>k. sample_frame) 100 sample_state) = None"
    using render_n_sample by blast
  from unit have "\<forall>c \<in> set (mClearColorValue sample_state). in_unit_interval c"
    by (simp add: list_all_iff)
  with len have "\<forall>i < 4. \<exists>x y k.
      mClearColorValue sample_state ! i = Finite x \<and>
      mClearColorValue (render_n (\<lambda>k. sample_frame) 100 sample_state) ! i = Finite y \<and>
      0 \<le> y \<and> y < 1 \<and> 0 \<le> k \<and> k \<le> int 100 \<and>
      \<bar>y - (x + of_nat 100 / 100 - of_int k)\<bar> \<le> of_nat 100 / 2 ^ 23"
    using run by (rule render_n_clear_color_drift)
  then have "\<exists>x y k.
      mClearColorValue sample_state ! 0 = Finite x \<and>
      mClearColorValue (render_n (\<lambda>k. sample_frame) 100 sample_state) ! 0 = Finite y \<and>
      0 \<le> y \<and> y < 1 \<and> 0 \<le> k \<and> k \<le> int 100 \<and>
      \<bar>y - (x + of_nat 100 / 100 - of_int k)\<bar> \<le> of_nat 100 / 2 ^ 23"
    by simp
  with len unit run show ?thesis
    by blast
qed

section \<open>The selection loops\<close>

lemma queueFamilyLoop_none:
  "i \<le> length qs \<Longrightarrow> (\<forall>j. i \<le> j \<and> j < length qs \<longrightarrow> qs ! j AND VK_QUEUE_GRAPHICS_BIT = 0)
     \<Longrightarrow> queueFamilyLoop qs i = length qs"
proof (induction qs i rule: queueFamilyLoop.induct)
  case (1 qs i)
  show ?case
  proof (cases "i < length qs")
    case True
    with "1.prems" have "qs ! i AND VK_QUEUE_GRAPHICS_BIT = 0"
      by simp
    with True "1.IH" "1.prems" show ?thesis
      by (subst queueFamilyLoop.simps) simp
  next
    case False
    with "1.prems" show ?thesis
      by (subst queueFamilyLoop.simps) simp
  qed
qed

lemma queueFamilyLoop_first:
  "i \<le> length qs \<Longrightarrow>
     i \<le> queueFamilyLoop qs i \<and> queueFamilyLoop qs i \<le> length qs \<and>
     (\<forall>j. i \<le> j \<and> j < queueFamilyLoop qs i \<longrightarrow> qs ! j AND VK_QUEUE_GRAPHICS_BIT = 0) \<and>
     (queueFamilyLoop qs i < length qs \<longrightarrow>
        qs ! queueFamilyLoop qs i AND VK_QUEUE_GRAPHICS_BIT \<noteq> 0)"
proof (induction qs i rule: queueFamilyLoop.induct)
  case (1 qs i)
  show ?case
  proof (cases "i < length qs")
    case less: True
    show ?thesis
    proof (cases "qs ! i AND VK_QUEUE_GRAPHICS_BIT \<noteq> 0")
      case True
      with less have "queueFamilyLoop qs i = i"
        by (subst queueFamilyLoop.simps) simp
      with less True show ?thesis
        by auto
    next
      case False
      with less have eq: "queueFamilyLoop qs i = queueFamilyLoop qs (i + 1)"
        by (subst queueFamilyLoop.simps) simp
      from less False "1.IH" have ih: "i + 1 \<le> queueFamilyLoop qs (i + 1) \<and>
          queueFamilyLoop qs (i + 1) \<le> length qs \<and>
          (\<forall>j. i + 1 \<le> j \<and> j < queueFamilyLoop qs (i + 1) \<longrightarrow>
             qs ! j AND VK_QUEUE_GRAPHICS_BIT = 0) \<and>
          (queueFamilyLoop qs (i + 1) < length qs \<longrightarrow>
             qs ! queueFamilyLoop qs (i + 1) AND VK_QUEUE_GRAPHICS_BIT \<noteq> 0)"
        by simp
      have "qs ! j AND VK_QUEUE_GRAPHICS_BIT = 0"
        if "i \<le> j" "j < queueFamilyLoop qs (i + 1)" for j
      proof (cases "j = i")
        case True
        with False show ?thesis by simp
      next
        case False
        with that have "i + 1 \<le> j" by simp
        with that ih show ?thesis by blast
      qed
      with ih show ?thesis
        unfolding eq by simp
    qed
  next
    case False
    with "1.prems" have "i = length qs"
      by simp
    moreover from False have "queueFamilyLoop qs i = i"
      by (subst queueFamilyLoop.simps) simp
    ultimately show ?thesis
      by auto
  qed
qed

lemma surfaceFormatLoop_none:
  "(\<forall>j. i \<le> j \<and> j < length fs \<longrightarrow> format (fs ! j) \<noteq> VK_FORMAT_R8G8B8A8_UNORM)
     \<Longrightarrow> surfaceFormatLoop fs i = VK_FORMAT_MAX_ENUM"
proof (induction fs i rule: surfaceFormatLoop.induct)
  case (1 fs i)
  show ?case
  proof (cases "i < length fs")
    case True
    with "1.prems" have "format (fs ! i) \<noteq> VK_FORMAT_R8G8B8A8_UNORM"
      by simp
    with True "1.IH" "1.prems" show ?thesis
      by (subst surfaceFormatLoop.simps) simp
  next
    case False
    then show ?thesis
      by (subst surfaceFormatLoop.simps) simp
  qed
qed

lemma surfaceFormatLoop_found:
  "\<exists>j. i \<le> j \<and> j < length fs \<and> format (fs ! j) = VK_FORMAT_R8G8B8A8_UNORM \<Longrightarrow>
     i \<le> surfaceFormatLoop fs i \<and> surfaceFormatLoop fs i < length fs \<and>
     format (fs ! surfaceFormatLoop fs i) = VK_FORMAT_R8G8B8A8_UNORM \<and>
     (\<forall>k. i \<le> k \<and> k < surfaceFormatLoop fs i \<longrightarrow> format (fs ! k) \<noteq> VK_FORMAT_R8G8B8A8_UNORM)"
proof (induction fs i rule: surfaceFormatLoop.induct)
  case (1 fs i)
  from "1.prems" have less: "i < length fs"
    by auto
  show ?case
  proof (cases "format (fs ! i) = VK_FORMAT_R8G8B8A8_UNORM")
    case True
    with less show ?thesis
      by (subst (1 2 3 4) surfaceFormatLoop.simps) simp
  next
    case False
    with "1.prems" have "\<exists>j. i + 1 \<le> j \<and> j < length fs \<and> format (fs ! j) = VK_FORMAT_R8G8B8A8_UNORM"
      by (metis Suc_eq_plus1 Suc_leI le_neq_implies_less)
    with less False "1.IH" have ih: "i + 1 \<le> surfaceFormatLoop fs (i + 1) \<and>
        surfaceFormatLoop fs (i + 1) < length fs \<and>
        format (fs ! surfaceFormatLoop fs (i + 1)) = VK_FORMAT_R8G8B8A8_UNORM \<and>
        (\<forall>k. i + 1 \<le> k \<and> k < surfaceFormatLoop fs (i + 1) \<longrightarrow>
           format (fs ! k) \<noteq> VK_FORMAT_R8G8B8A8_UNORM)"
      by simp
    have eq: "surfaceFormatLoop fs i = surfaceFormatLoop fs (i + 1)"
      using less False by (subst surfaceFormatLoop.simps) simp
    show ?thesis
      unfolding eq using ih False
      by (metis Suc_eq_plus1 Suc_leI le_neq_implies_less le_trans nat_le_linear not_less_eq_eq)
  qed
qed

lemma presentModeLoop_none:
  "(\<forall>j. i \<le> j \<and> j < length ms \<longrightarrow> ms ! j \<noteq> VK_PRESENT_MODE_FIFO_KHR)
     \<Longrightarrow> presentModeLoop ms i = VK_PRESENT_MODE_MAX_ENUM_KHR"
proof (induction ms i rule: presentModeLoop.induct)
  case (1 ms i)
  show ?case
  proof (cases "i < length ms")
    case True
    with "1.prems" have "ms ! i \<noteq> VK_PRESENT_MODE_FIFO_KHR"
      by simp
    with True "1.IH" "1.prems" show ?thesis
      by (subst presentModeLoop.simps) simp
  next
    case False
    then show ?thesis
      by (subst presentModeLoop.simps) simp
  qed
qed

lemma presentModeLoop_found:
  "\<exists>j. i \<le> j \<and> j < length ms \<and> ms ! j = VK_PRESENT_MODE_FIFO_KHR \<Longrightarrow>
     i \<le> presentModeLoop ms i \<and> presentModeLoop ms i < length ms \<and>
     ms ! presentModeLoop ms i = VK_PRESENT_MODE_FIFO_KHR \<and>
     (\<forall>k. i \<le> k \<and> k < presentModeLoop ms i \<longrightarrow> ms ! k \<noteq> VK_PRESENT_MODE_FIFO_KHR)"
proof (induction ms i rule: presentModeLoop.induct)
  case (1 ms i)
  from "1.prems" have less: "i < length ms"
    by auto
  show ?case
  proof (cases "ms ! i = VK_PRESENT_MODE_FIFO_KHR")
    case True
    with less show ?thesis
      by (subst (1 2 3 4) presentModeLoop.simps) simp
  next
    case False
    with "1.prems" have "\<exists>j. i + 1 \<le> j \<and> j < length ms \<and> ms ! j = VK_PRESENT_MODE_FIFO_KHR"
      by (metis Suc_eq_plus1 Suc_leI le_neq_implies_less)
    with less False "1.IH" have ih: "i + 1 \<le> presentModeLoop ms (i + 1) \<and>
        presentModeLoop ms (i + 1) < length ms \<and>
        ms ! presentModeLoop ms (i + 1) = VK_PRESENT_MODE_FIFO_KHR \<and>
        (\<forall>k. i + 1 \<le> k \<and> k < presentModeLoop ms (i + 1) \<longrightarrow>
           ms ! k \<noteq> VK_PRESENT_MODE_FIFO_KHR)"
      by simp
    have eq: "presentModeLoop ms i = presentModeLoop ms (i + 1)"
      using less False by (subst presentModeLoop.simps) simp
    show ?thesis
      unfolding eq using ih False
      by (metis Suc_eq_plus1 Suc_leI le_neq_implies_less le_trans nat_le_linear not_less_eq_eq)
  qed
qed

section \<open>Running the constructor\<close>

lemma exec_append: "exec (xs @ ys) s = exec ys (exec xs s)"
  by (simp add: exec_def)

lemma exec_map_invoke:
  "halted s = None \<Longrightarrow> exec (map (\<lambda>x. invoke (f x)) xs) s = s\<lparr>calls := calls s @ map f xs\<rparr>"
  by (induction xs arbitrary: s) (simp_all add: exec_Nil exec_step invoke_def)

lemmas ctor_stages = create_instance_def select_physical_device_def create_device_def
  create_surface_def query_surface_capabilities_def choose_surface_format_def
  choose_present_mode_def create_swapchain_def create_command_buffer_def
  transition_image_layouts_def create_sync_objects_def

lemma exec_map_invoke_eq:
  "exec (map (\<lambda>x. invoke (f x)) xs) s =
     (if halted s = None then s\<lparr>calls := calls s @ map f xs\<rparr> else s)"
  by (cases "halted s") (simp_all add: exec_map_invoke exec_stop)

lemma exec_keeps:
  assumes "\<And>stmt s. stmt \<in> set stmts \<Longrightarrow> f (stmt s) = f s"
  shows "f (exec stmts s) = f s"
  using assms
proof (induction stmts arbitrary: s)
  case Nil
  show ?case by (simp add: exec_Nil)
next
  case (Cons stmt stmts)
  show ?case
  proof (cases "halted s")
    case None
    then have "exec (stmt # stmts) s = exec stmts (stmt s)"
      by (rule exec_step)
    with Cons show ?thesis
      by simp
  next
    case (Some h)
    then show ?thesis
      by (simp add: exec_stop)
  qed
qed

lemma exec_new_calls:
  assumes "\<And>stmt s. stmt \<in> set stmts \<Longrightarrow> \<exists>new. calls (stmt s) = calls s @ new \<and> list_all Q new"
  shows "\<exists>new. calls (exec stmts s) = calls s @ new \<and> list_all Q new"
  using assms
proof (induction stmts arbitrary: s)
  case Nil
  show ?case by (simp add: exec_Nil)
next
  case (Cons stmt stmts)
  show ?case
  proof (cases "halted s")
    case None
    then have step: "exec (stmt # stmts) s = exec stmts (stmt s)"
      by (rule exec_step)
    from Cons.prems obtain n1 where n1: "calls (stmt s) = calls s @ n1" "list_all Q n1"
      by (meson list.set_intros(1))
    from Cons obtain n2 where n2: "calls (exec stmts (stmt s)) = calls (stmt s) @ n2" "list_all Q n2"
      by (meson list.set_intros(2))
    from n1 n2 step show ?thesis
      by (intro exI [of _ "n1 @ n2"]) simp
  next
    case (Some h)
    then show ?thesis
      by (simp add: exec_stop)
  qed
qed

lemma exec_halted_mono: "halted (exec stmts s) = None \<Longrightarrow> halted s = None"
  by (cases "halted s") (simp_all add: exec_stop)

lemmas stmt_simps = VK_CHECK_ERROR_def invoke_def in_bounds_def c_assert_def exec_map_invoke_eq

lemma after_device_keeps_queue_family:
  "mQueueFamilyIndex
     (exec (create_surface drv @ query_surface_capabilities drv @
            choose_surface_format drv @ choose_present_mode drv @ create_swapchain drv @
            create_command_buffer drv @ transition_image_layouts drv @ create_sync_objects drv) s) =
   mQueueFamilyIndex s"
  by (rule exec_keeps) (auto simp add: ctor_stages stmt_simps)

lemma create_device_sets_queue_family:
  assumes "halted s = None"
  shows "mQueueFamilyIndex (exec (create_device drv) s) =
           queueFamilyLoop (queueFamilyProperties (mPhysicalDevice s)) 0"
proof -
  let ?search = "[invoke (vkGetPhysicalDeviceQueueFamilyProperties Count),
      invoke (vkGetPhysicalDeviceQueueFamilyProperties Fill),
      (\<lambda>s. s\<lparr>mQueueFamilyIndex :=
                queueFamilyLoop (queueFamilyProperties (mPhysicalDevice s)) 0\<rparr>)]"
  let ?create = "[VK_CHECK_ERROR (vkResult drv) 145 (vkEnumerateDeviceExtensionProperties Count),
      VK_CHECK_ERROR (vkResult drv) 151 (vkEnumerateDeviceExtensionProperties Fill),
      (\<lambda>s. c_assert 162 (length (deviceExtensionNames (mPhysicalDevice s)) = 1) s),
      (\<lambda>s. VK_CHECK_ERROR (vkResult drv) 172
             (vkCreateDevice (mQueueFamilyIndex s) (deviceExtensionNames (mPhysicalDevice s))) s),
      (\<lambda>s. invoke (vkGetDeviceQueue (mQueueFamilyIndex s) 0) s)]"
  have split: "create_device drv = ?search @ ?create"
    by (simp add: create_device_def)
  have keep: "mQueueFamilyIndex (exec ?create t) = mQueueFamilyIndex t" for t
    by (rule exec_keeps) (auto simp add: stmt_simps)
  from assms have "mQueueFamilyIndex (exec ?search s) =
      queueFamilyLoop (queueFamilyProperties (mPhysicalDevice s)) 0"
    by (simp add: run_simps)
  then show ?thesis
    unfolding split exec_append keep .
qed

lemma ctor_run:
  assumes h: "halted s = None"
    and ok: "driver_succeeds drv"
    and req: "device_requirements drv"
    and fmt: "surfaceFormatIndex (first_device drv) < length (surfaceFormats (first_device drv))"
      "surfaceFormatIndex (first_device drv) \<noteq> VK_FORMAT_MAX_ENUM"
    and mode: "presentModeIndex (first_device drv) < length (presentModes (first_device drv))"
      "presentModeIndex (first_device drv) \<noteq> VK_PRESENT_MODE_MAX_ENUM_KHR"
  shows "VkRenderer_ctor drv s =
           s\<lparr>calls := calls s @ setup_calls drv,
             mPhysicalDevice := first_device drv,
             mQueueFamilyIndex := first_device_queue_family drv,
             mSwapchainImages := swapchainImages drv\<rparr>"
proof -
  from ok have [simp]: "\<And>c. vkResult drv c = VK_SUCCESS"
    by (simp add: driver_succeeds_def)
  from req fmt mode h show ?thesis
    unfolding VkRenderer_ctor_def ctor_stages device_requirements_def setup_calls_def
      first_device_queue_family_def
    by (simp add: run_simps exec_map_invoke first_device_def)
qed

lemma surfaceFormatIndex_present:
  assumes "VK_FORMAT_R8G8B8A8_UNORM \<in> format ` set (surfaceFormats pd)"
    and "length (surfaceFormats pd) \<le> VK_FORMAT_MAX_ENUM"
  shows "surfaceFormatIndex pd < length (surfaceFormats pd) \<and>
         surfaceFormatIndex pd \<noteq> VK_FORMAT_MAX_ENUM \<and>
         format (surfaceFormats pd ! surfaceFormatIndex pd) = VK_FORMAT_R8G8B8A8_UNORM \<and>
         (\<forall>k < surfaceFormatIndex pd. format (surfaceFormats pd ! k) \<noteq> VK_FORMAT_R8G8B8A8_UNORM)"
proof -
  from assms(1) obtain f where "f \<in> set (surfaceFormats pd)" "format f = VK_FORMAT_R8G8B8A8_UNORM"
    by auto
  then have "\<exists>j. 0 \<le> j \<and> j < length (surfaceFormats pd) \<and>
      format (surfaceFormats pd ! j) = VK_FORMAT_R8G8B8A8_UNORM"
    by (metis in_set_conv_nth le0)
  from surfaceFormatLoop_found [OF this] assms(2) show ?thesis
    by (simp add: surfaceFormatIndex_def)
qed

lemma surfaceFormatIndex_absent:
  "VK_FORMAT_R8G8B8A8_UNORM \<notin> format ` set (surfaceFormats pd) \<Longrightarrow>
     surfaceFormatIndex pd = VK_FORMAT_MAX_ENUM"
  unfolding surfaceFormatIndex_def by (rule surfaceFormatLoop_none) (metis image_eqI nth_mem)

lemma presentModeIndex_present:
  assumes "VK_PRESENT_MODE_FIFO_KHR \<in> set (presentModes pd)"
    and "length (presentModes pd) \<le> VK_PRESENT_MODE_MAX_ENUM_KHR"
  shows "presentModeIndex pd < length (presentModes pd) \<and>
         presentModeIndex pd \<noteq> VK_PRESENT_MODE_MAX_ENUM_KHR \<and>
         presentModes pd ! presentModeIndex pd = VK_PRESENT_MODE_FIFO_KHR"
proof -
  from assms(1) have "\<exists>j. 0 \<le> j \<and> j < length (presentModes pd) \<and>
      presentModes pd ! j = VK_PRESENT_MODE_FIFO_KHR"
    by (metis in_set_conv_nth le0)
  from presentModeLoop_found [OF this] assms(2) show ?thesis
    by (simp add: presentModeIndex_def)
qed

lemma presentModeIndex_absent:
  "VK_PRESENT_MODE_FIFO_KHR \<notin> set (presentModes pd) \<Longrightarrow>
     presentModeIndex pd = VK_PRESENT_MODE_MAX_ENUM_KHR"
  unfolding presentModeIndex_def by (rule presentModeLoop_none) (metis nth_mem)

lemma ctor_succeeds:
  assumes "halted s = None" "setup_succeeds drv"
  shows "VkRenderer_ctor drv s =
           s\<lparr>calls := calls s @ setup_calls drv,
             mPhysicalDevice := first_device drv,
             mQueueFamilyIndex := first_device_queue_family drv,
             mSwapchainImages := swapchainImages drv\<rparr>"
  using assms surfaceFormatIndex_present [of "first_device drv"]
    presentModeIndex_present [of "first_device drv"]
  by (intro ctor_run) (simp_all add: setup_succeeds_def)

lemma map_filter_append:
  "List.map_filter f (xs @ ys) = List.map_filter f xs @ List.map_filter f ys"
  by (simp add: List.map_filter_def)

lemma creation_order_barriers:
  "List.map_filter created (map (\<lambda>img. vkCmdPipelineBarrier a b (f img)) imgs) = []"
  by (induction imgs) simp_all

lemma creation_order_setup_calls:
  "creation_order (setup_calls drv) =
     [mInstance, mDevice, mSurface, mSwapchain, mCommandPool, mCommandBuffer, mFence,
      mImageAcquisitionSemaphore, mRenderCompletionSemaphore]"
  by (simp add: creation_order_def setup_calls_def map_filter_append creation_order_barriers)

lemma dtor_calls_eq:
  "halted s = None \<Longrightarrow>
     dtor_calls s =
       [vkDestroySemaphore mImageAcquisitionSemaphore, vkDestroySemaphore mRenderCompletionSemaphore,
        vkDestroyFence mFence, vkFreeCommandBuffers mCommandBuffer,
        vkDestroyCommandPool mCommandPool, vkDestroySwapchainKHR mSwapchain,
        vkDestroySurfaceKHR mSurface, vkDestroyDevice mDevice, vkDestroyInstance mInstance]"
  by (simp add: dtor_calls_def VkRenderer_dtor_def exec_Nil exec_step invoke_def)

lemma orders:
  assumes "halted s = None" "setup_succeeds drv"
  shows "creation_order (ctor_calls drv s) =
           [mInstance, mDevice, mSurface, mSwapchain, mCommandPool, mCommandBuffer, mFence,
            mImageAcquisitionSemaphore, mRenderCompletionSemaphore]"
    and "destruction_order (dtor_calls (VkRenderer_ctor drv s)) =
           [mImageAcquisitionSemaphore, mRenderCompletionSemaphore, mFence, mCommandBuffer,
            mCommandPool, mSwapchain, mSurface, mDevice, mInstance]"
  using assms
  by (simp_all add: ctor_calls_def ctor_succeeds creation_order_setup_calls dtor_calls_eq
      destruction_order_def)

lemma queueFamilyLoop_sample: "queueFamilyLoop [0x4, 0xF] 0 = 1"
  by (simp add: queueFamilyLoop.simps VK_QUEUE_GRAPHICS_BIT_def)

lemma compositeAlphaLoop_sample: "compositeAlphaLoop 0x8 0 = 0x8"
  by (simp add: compositeAlphaLoop.simps)

lemma setup_succeeds_sample: "setup_succeeds sample_driver"
  by (simp add: setup_succeeds_def driver_succeeds_def device_requirements_def
      first_device_def first_device_queue_family_def sample_driver_def sample_device_def
      instanceExtensionNames_def deviceExtensionNames_def compositeAlpha_def
      queueFamilyLoop_sample compositeAlphaLoop_sample
      VK_COMPOSITE_ALPHA_FLAG_BITS_MAX_ENUM_KHR_def VK_IMAGE_USAGE_COLOR_ATTACHMENT_BIT_def
      VK_FORMAT_R8G8B8A8_UNORM_def VK_FORMAT_MAX_ENUM_def VK_PRESENT_MODE_FIFO_KHR_def
      VK_PRESENT_MODE_MAX_ENUM_KHR_def)

section \<open>Creation and destruction\<close>

lemma halted_fresh: "halted fresh = None"
  by (simp add: fresh_def)

text \<open>
  Claim C5, as amended.  After a construction in which nothing fails, the destructor
  releases every owned object exactly once, in the reverse order of creation except
  for the two semaphores, which it destroys in the order of their creation: given the
  creation order instance, device, surface, swapchain, command pool, command buffer,
  fence, acquisition semaphore, completion semaphore, destruction proceeds acquisition
  semaphore, completion semaphore, fence, command buffer, command pool, swapchain,
  surface, device, instance.
\<close>

theorem destructor_order:
  assumes "halted s = None" "setup_succeeds drv"
  shows "creation_order (ctor_calls drv s) =
           [mInstance, mDevice, mSurface, mSwapchain, mCommandPool, mCommandBuffer, mFence,
            mImageAcquisitionSemaphore, mRenderCompletionSemaphore] \<and>
         destruction_order (dtor_calls (VkRenderer_ctor drv s)) =
           [mImageAcquisitionSemaphore, mRenderCompletionSemaphore, mFence, mCommandBuffer,
            mCommandPool, mSwapchain, mSurface, mDevice, mInstance] \<and>
         distinct (destruction_order (dtor_calls (VkRenderer_ctor drv s))) \<and>
         set (destruction_order (dtor_calls (VkRenderer_ctor drv s))) =
           set (creation_order (ctor_calls drv s)) \<and>
         destruction_order (dtor_calls (VkRenderer_ctor drv s)) =
           (rev (creation_order (ctor_calls drv s)))
             [0 := mImageAcquisitionSemaphore, 1 := mRenderCompletionSemaphore]"
  using orders [OF assms] by auto

theorem destructor_order_witness:
  "halted fresh = None \<and> setup_succeeds sample_driver \<and>
   creation_order (ctor_calls sample_driver fresh) =
     [mInstance, mDevice, mSurface, mSwapchain, mCommandPool, mCommandBuffer, mFence,
      mImageAcquisitionSemaphore, mRenderCompletionSemaphore] \<and>
   destruction_order (dtor_calls (VkRenderer_ctor sample_driver fresh)) =
     [mImageAcquisitionSemaphore, mRenderCompletionSemaphore, mFence, mCommandBuffer,
      mCommandPool, mSwapchain, mSurface, mDevice, mInstance]"
  using destructor_order [OF halted_fresh setup_succeeds_sample] halted_fresh
    setup_succeeds_sample
  by simp

text \<open>
  The claim as stated fails: the destructor destroys the acquisition semaphore first,
  while the object created last is the completion semaphore.
\<close>

theorem destructor_not_strictly_reverse:
  "setup_succeeds sample_driver \<and>
   destruction_order (dtor_calls (VkRenderer_ctor sample_driver fresh)) \<noteq>
     rev (creation_order (ctor_calls sample_driver fresh)) \<and>
   hd (destruction_order (dtor_calls (VkRenderer_ctor sample_driver fresh))) =
     mImageAcquisitionSemaphore \<and>
   hd (rev (creation_order (ctor_calls sample_driver fresh))) = mRenderCompletionSemaphore"
  using orders [OF halted_fresh setup_succeeds_sample] setup_succeeds_sample
  by simp

section \<open>The physical device and its queue family\<close>

lemma select_physical_device_selects:
  "halted (exec (select_physical_device drv) s) = None \<Longrightarrow>
     0 < length (physicalDevices drv) \<and>
     mPhysicalDevice (exec (select_physical_device drv) s) = physicalDevices drv ! 0"
proof (cases "halted s")
  case None
  assume "halted (exec (select_physical_device drv) s) = None"
  with None show ?thesis
    by (simp add: select_physical_device_def run_simps split: if_splits)
next
  case (Some h)
  assume "halted (exec (select_physical_device drv) s) = None"
  with Some show ?thesis
    by (simp add: exec_stop)
qed

lemma after_selection_keeps_device:
  "mPhysicalDevice
     (exec (create_device drv @ create_surface drv @ query_surface_capabilities drv @
            choose_surface_format drv @ choose_present_mode drv @ create_swapchain drv @
            create_command_buffer drv @ transition_image_layouts drv @ create_sync_objects drv) s) =
   mPhysicalDevice s"
  by (rule exec_keeps) (auto simp add: ctor_stages stmt_simps)

lemma ctor_selects_first_device:
  assumes "halted (exec (create_instance drv @ select_physical_device drv) s) = None \<or>
           halted (VkRenderer_ctor drv s) = None"
  shows "0 < length (physicalDevices drv) \<and>
         mPhysicalDevice (VkRenderer_ctor drv s) = physicalDevices drv ! 0 \<and>
         mQueueFamilyIndex (VkRenderer_ctor drv s) =
           queueFamilyLoop (queueFamilyProperties (physicalDevices drv ! 0)) 0"
proof -
  let ?sel = "exec (select_physical_device drv) (exec (create_instance drv) s)"
  let ?after = "create_surface drv @ query_surface_capabilities drv @
            choose_surface_format drv @ choose_present_mode drv @ create_swapchain drv @
            create_command_buffer drv @ transition_image_layouts drv @ create_sync_objects drv"
  have ctor: "VkRenderer_ctor drv s = exec (create_device drv @ ?after) ?sel"
    by (simp add: VkRenderer_ctor_def exec_append)
  have sel: "halted ?sel = None"
  proof (rule disjE [OF assms])
    assume "halted (exec (create_instance drv @ select_physical_device drv) s) = None"
    then show ?thesis
      by (simp add: exec_append)
  next
    assume "halted (VkRenderer_ctor drv s) = None"
    then show ?thesis
      unfolding ctor by (rule exec_halted_mono)
  qed
  then have dev: "0 < length (physicalDevices drv)" "mPhysicalDevice ?sel = physicalDevices drv ! 0"
    using select_physical_device_selects [of drv "exec (create_instance drv) s"] by simp_all
  have "VkRenderer_ctor drv s = exec ?after (exec (create_device drv) ?sel)"
    by (simp add: VkRenderer_ctor_def exec_append)
  then have "mQueueFamilyIndex (VkRenderer_ctor drv s) =
      mQueueFamilyIndex (exec (create_device drv) ?sel)"
    by (simp only: after_device_keeps_queue_family)
  also have "\<dots> = queueFamilyLoop (queueFamilyProperties (mPhysicalDevice ?sel)) 0"
    using sel by (rule create_device_sets_queue_family)
  finally have "mQueueFamilyIndex (VkRenderer_ctor drv s) =
      queueFamilyLoop (queueFamilyProperties (physicalDevices drv ! 0)) 0"
    by (simp only: dev(2))
  moreover have "mPhysicalDevice (VkRenderer_ctor drv s) = physicalDevices drv ! 0"
    by (simp add: ctor after_selection_keeps_device dev(2))
  ultimately show ?thesis
    using dev(1) by simp
qed

lemma queueFamilyLoop_compute_only: "queueFamilyLoop [0x2, 0x4] 0 = 2"
  by (simp add: queueFamilyLoop.simps VK_QUEUE_GRAPHICS_BIT_def)

lemma setup_succeeds_two_device: "setup_succeeds two_device_driver"
  by (simp add: setup_succeeds_def driver_succeeds_def device_requirements_def
      first_device_def first_device_queue_family_def two_device_driver_def sample_driver_def
      compute_only_device_def sample_device_def
      instanceExtensionNames_def deviceExtensionNames_def compositeAlpha_def
      queueFamilyLoop_compute_only compositeAlphaLoop_sample
      VK_COMPOSITE_ALPHA_FLAG_BITS_MAX_ENUM_KHR_def VK_IMAGE_USAGE_COLOR_ATTACHMENT_BIT_def
      VK_FORMAT_R8G8B8A8_UNORM_def VK_FORMAT_MAX_ENUM_def VK_PRESENT_MODE_FIFO_KHR_def
      VK_PRESENT_MODE_MAX_ENUM_KHR_def)

text \<open>
  Claim C3, as amended.  The physical device selected during one-time setup is the
  first enumerated device, whether or not it exposes a graphics-capable queue family:
  whenever instance creation and the enumeration of the devices have not failed, and so
  whenever setup completes, the enumeration was not empty and the selected device,
  from there to the end of setup, is its element 0.  No later device is considered.
  The search for a graphics-capable queue family is made among the queue families of
  that device only: the queue family index that setup ends with is the index of the
  first queue family of element 0 that has the graphics bit, every family before it
  lacking the bit, or the number of its queue families when none has it.
\<close>

theorem first_enumerated_device_is_selected:
  assumes "halted (exec (create_instance drv @ select_physical_device drv) s) = None \<or>
           halted (VkRenderer_ctor drv s) = None"
  shows "0 < length (physicalDevices drv) \<and>
         mPhysicalDevice (VkRenderer_ctor drv s) = physicalDevices drv ! 0 \<and>
         mQueueFamilyIndex (VkRenderer_ctor drv s) =
           queueFamilyLoop (queueFamilyProperties (physicalDevices drv ! 0)) 0 \<and>
         mQueueFamilyIndex (VkRenderer_ctor drv s) \<le>
           length (queueFamilyProperties (physicalDevices drv ! 0)) \<and>
         (\<forall>j < mQueueFamilyIndex (VkRenderer_ctor drv s).
            queueFamilyProperties (physicalDevices drv ! 0) ! j AND VK_QUEUE_GRAPHICS_BIT = 0) \<and>
         (mQueueFamilyIndex (VkRenderer_ctor drv s) <
            length (queueFamilyProperties (physicalDevices drv ! 0)) \<longrightarrow>
          queueFamilyProperties (physicalDevices drv ! 0) !
            mQueueFamilyIndex (VkRenderer_ctor drv s) AND VK_QUEUE_GRAPHICS_BIT \<noteq> 0)"
proof -
  let ?qs = "queueFamilyProperties (physicalDevices drv ! 0)"
  from assms have sel: "0 < length (physicalDevices drv)"
      "mPhysicalDevice (VkRenderer_ctor drv s) = physicalDevices drv ! 0"
      "mQueueFamilyIndex (VkRenderer_ctor drv s) = queueFamilyLoop ?qs 0"
    using ctor_selects_first_device by blast+
  have "queueFamilyLoop ?qs 0 \<le> length ?qs \<and>
      (\<forall>j. 0 \<le> j \<and> j < queueFamilyLoop ?qs 0 \<longrightarrow> ?qs ! j AND VK_QUEUE_GRAPHICS_BIT = 0) \<and>
      (queueFamilyLoop ?qs 0 < length ?qs \<longrightarrow>
         ?qs ! queueFamilyLoop ?qs 0 AND VK_QUEUE_GRAPHICS_BIT \<noteq> 0)"
    using queueFamilyLoop_first [of 0 ?qs] by simp
  with sel show ?thesis
    by simp
qed

theorem first_enumerated_device_is_selected_witness:
  "halted (VkRenderer_ctor sample_driver fresh) = None \<and>
   0 < length (physicalDevices sample_driver) \<and>
   mPhysicalDevice (VkRenderer_ctor sample_driver fresh) = physicalDevices sample_driver ! 0 \<and>
   queueFamilyProperties (physicalDevices sample_driver ! 0) = [0x4, 0xF] \<and>
   mQueueFamilyIndex (VkRenderer_ctor sample_driver fresh) = 1"
proof -
  have h: "halted (VkRenderer_ctor sample_driver fresh) = None"
    by (simp add: ctor_succeeds halted_fresh setup_succeeds_sample)
  have qs: "queueFamilyProperties (physicalDevices sample_driver ! 0) = [0x4, 0xF]"
    by (simp add: sample_driver_def sample_device_def)
  from h first_enumerated_device_is_selected [of sample_driver fresh]
  have "0 < length (physicalDevices sample_driver) \<and>
      mPhysicalDevice (VkRenderer_ctor sample_driver fresh) = physicalDevices sample_driver ! 0 \<and>
      mQueueFamilyIndex (VkRenderer_ctor sample_driver fresh) =
        queueFamilyLoop (queueFamilyProperties (physicalDevices sample_driver ! 0)) 0"
    by blast
  with h qs show ?thesis
    by (simp add: queueFamilyLoop_sample)
qed

text \<open>
  The claim as stated fails: when the first enumerated device has no graphics-capable
  queue family and the second has one, setup selects the first.
\<close>

theorem device_without_graphics_is_selected:
  "physicalDevices two_device_driver = [compute_only_device, sample_device] \<and>
   list_all (\<lambda>q. q AND VK_QUEUE_GRAPHICS_BIT = 0) (queueFamilyProperties compute_only_device) \<and>
   list_ex (\<lambda>q. q AND VK_QUEUE_GRAPHICS_BIT \<noteq> 0) (queueFamilyProperties sample_device) \<and>
   halted (VkRenderer_ctor two_device_driver fresh) = None \<and>
   mPhysicalDevice (VkRenderer_ctor two_device_driver fresh) = compute_only_device \<and>
   mPhysicalDevice (VkRenderer_ctor two_device_driver fresh) \<noteq> sample_device"
  by (simp add: ctor_succeeds halted_fresh setup_succeeds_two_device first_device_def)
    (simp add: two_device_driver_def compute_only_device_def sample_device_def
      VK_QUEUE_GRAPHICS_BIT_def)

lemma reaches_vkCreateDevice:
  assumes h: "halted s = None" and reach: "reaches_device_creation drv"
  shows "\<exists>new. calls (exec (create_instance drv @ select_physical_device drv @ create_device drv) s)
             = calls s @ new \<and>
           vkCreateDevice (first_device_queue_family drv) (deviceExtensionNames (first_device drv))
             \<in> set new \<and>
           mQueueFamilyIndex
             (exec (create_instance drv @ select_physical_device drv @ create_device drv) s)
             = first_device_queue_family drv"
proof (cases "vkResult drv (vkCreateDevice (first_device_queue_family drv)
                 (deviceExtensionNames (first_device drv))) = VK_SUCCESS")
  case True
  with h reach show ?thesis
    unfolding ctor_stages reaches_device_creation_def first_device_queue_family_def
    by (simp add: run_simps first_device_def)
next
  case False
  with h reach show ?thesis
    unfolding ctor_stages reaches_device_creation_def first_device_queue_family_def
    by (simp add: run_simps first_device_def)
qed

lemma after_device_extends:
  "\<exists>new. calls
     (exec (create_surface drv @ query_surface_capabilities drv @
            choose_surface_format drv @ choose_present_mode drv @ create_swapchain drv @
            create_command_buffer drv @ transition_image_layouts drv @ create_sync_objects drv) s) =
   calls s @ new \<and> list_all (\<lambda>c. True) new"
  by (rule exec_new_calls) (auto simp add: ctor_stages stmt_simps list_all_iff)

text \<open>
  Claim C10.  If the first enumerated physical device exposes no graphics-capable queue
  family, the queue-family search ends with the index equal to the number of queue
  families, one past the last valid index, and, when nothing else fails before, setup
  goes on to call \<open>vkCreateDevice\<close> with that index: it does not stop at the selection.
\<close>

theorem missing_graphics_family_reaches_device_creation:
  assumes h: "halted s = None"
    and reach: "reaches_device_creation drv"
    and none: "\<forall>q \<in> set (queueFamilyProperties (first_device drv)). q AND VK_QUEUE_GRAPHICS_BIT = 0"
  shows "first_device_queue_family drv = length (queueFamilyProperties (first_device drv)) \<and>
         mQueueFamilyIndex (VkRenderer_ctor drv s) = length (queueFamilyProperties (first_device drv)) \<and>
         vkCreateDevice (length (queueFamilyProperties (first_device drv)))
           (deviceExtensionNames (first_device drv)) \<in> set (ctor_calls drv s)"
proof -
  let ?dev = "exec (create_instance drv @ select_physical_device drv @ create_device drv) s"
  let ?rest = "create_surface drv @ query_surface_capabilities drv @
            choose_surface_format drv @ choose_present_mode drv @ create_swapchain drv @
            create_command_buffer drv @ transition_image_layouts drv @ create_sync_objects drv"
  from none have index: "first_device_queue_family drv = length (queueFamilyProperties (first_device drv))"
    unfolding first_device_queue_family_def by (intro queueFamilyLoop_none) simp_all
  have ctor: "VkRenderer_ctor drv s = exec ?rest ?dev"
    by (simp add: VkRenderer_ctor_def exec_append)
  from reaches_vkCreateDevice [OF h reach] obtain new where
    new: "calls ?dev = calls s @ new"
      "vkCreateDevice (first_device_queue_family drv) (deviceExtensionNames (first_device drv))
         \<in> set new"
      "mQueueFamilyIndex ?dev = first_device_queue_family drv"
    by blast
  from after_device_extends [of drv ?dev] obtain more where
    "calls (exec ?rest ?dev) = calls ?dev @ more"
    by blast
  with new(1) have "ctor_calls drv s = new @ more"
    by (simp add: ctor_calls_def ctor)
  with new(2) have "vkCreateDevice (first_device_queue_family drv)
      (deviceExtensionNames (first_device drv)) \<in> set (ctor_calls drv s)"
    by simp
  moreover have "mQueueFamilyIndex (VkRenderer_ctor drv s) = first_device_queue_family drv"
    by (simp add: ctor after_device_keeps_queue_family new(3))
  ultimately show ?thesis
    using index by simp
qed

lemma reaches_device_creation_two_device: "reaches_device_creation two_device_driver"
  by (simp add: reaches_device_creation_def first_device_def two_device_driver_def
      sample_driver_def compute_only_device_def sample_device_def instanceExtensionNames_def
      deviceExtensionNames_def)

theorem missing_graphics_family_reaches_device_creation_witness:
  "halted fresh = None \<and> reaches_device_creation two_device_driver \<and>
   list_all (\<lambda>q. q AND VK_QUEUE_GRAPHICS_BIT = 0)
     (queueFamilyProperties (first_device two_device_driver)) \<and>
   length (queueFamilyProperties (first_device two_device_driver)) = 2 \<and>
   mQueueFamilyIndex (VkRenderer_ctor two_device_driver fresh) = 2 \<and>
   vkCreateDevice 2 [''VK_KHR_swapchain''] \<in> set (ctor_calls two_device_driver fresh)"
proof -
  have dev: "first_device two_device_driver = compute_only_device"
    by (simp add: first_device_def two_device_driver_def)
  have fam: "queueFamilyProperties compute_only_device = [0x2, 0x4]"
    by (simp add: compute_only_device_def)
  have ext: "deviceExtensionNames compute_only_device = [''VK_KHR_swapchain'']"
    by (simp add: deviceExtensionNames_def compute_only_device_def sample_device_def)
  have none: "list_all (\<lambda>q. q AND VK_QUEUE_GRAPHICS_BIT = 0)
      (queueFamilyProperties (first_device two_device_driver))"
    by (simp add: dev fam VK_QUEUE_GRAPHICS_BIT_def)
  then have "\<forall>q \<in> set (queueFamilyProperties (first_device two_device_driver)).
      q AND VK_QUEUE_GRAPHICS_BIT = 0"
    by (simp add: list_all_iff)
  with halted_fresh reaches_device_creation_two_device
  have "first_device_queue_family two_device_driver =
          length (queueFamilyProperties (first_device two_device_driver)) \<and>
        mQueueFamilyIndex (VkRenderer_ctor two_device_driver fresh) =
          length (queueFamilyProperties (first_device two_device_driver)) \<and>
        vkCreateDevice (length (queueFamilyProperties (first_device two_device_driver)))
          (deviceExtensionNames (first_device two_device_driver))
          \<in> set (ctor_calls two_device_driver fresh)"
    by (rule missing_graphics_family_reaches_device_creation)
  with none halted_fresh reaches_device_creation_two_device show ?thesis
    by (simp add: dev fam ext eval_nat_numeral)
qed

section \<open>Surface format and present mode\<close>

lemma stages_keep_device:
  "mPhysicalDevice (exec (create_device drv) s) = mPhysicalDevice s"
  "mPhysicalDevice (exec (create_surface drv) s) = mPhysicalDevice s"
  "mPhysicalDevice (exec (query_surface_capabilities drv) s) = mPhysicalDevice s"
  "mPhysicalDevice (exec (choose_surface_format drv) s) = mPhysicalDevice s"
  "mPhysicalDevice (exec (choose_present_mode drv) s) = mPhysicalDevice s"
  by (rule exec_keeps, auto simp add: ctor_stages stmt_simps)+

lemma before_swapchain_creates_none:
  "\<exists>new. calls
     (exec (create_instance drv @ select_physical_device drv @ create_device drv @
            create_surface drv @ query_surface_capabilities drv @ choose_surface_format drv @
            choose_present_mode drv) s) =
   calls s @ new \<and> list_all (\<lambda>c. \<forall>info. c \<noteq> vkCreateSwapchainKHR info) new"
  by (rule exec_new_calls) (auto simp add: ctor_stages stmt_simps)

lemma choose_surface_format_absent:
  "surfaceFormatIndex (mPhysicalDevice s) = VK_FORMAT_MAX_ENUM \<Longrightarrow>
     halted (exec (choose_surface_format drv) s) \<noteq> None"
  by (cases "halted s") (auto simp add: choose_surface_format_def run_simps)

lemma choose_present_mode_absent:
  "presentModeIndex (mPhysicalDevice s) = VK_PRESENT_MODE_MAX_ENUM_KHR \<Longrightarrow>
     halted (exec (choose_present_mode drv) s) \<noteq> None"
  by (cases "halted s") (auto simp add: choose_present_mode_def run_simps)

lemma ctor_without_format_or_mode:
  assumes "VK_FORMAT_R8G8B8A8_UNORM \<notin> format ` set (surfaceFormats (first_device drv)) \<or>
           VK_PRESENT_MODE_FIFO_KHR \<notin> set (presentModes (first_device drv))"
  shows "halted (VkRenderer_ctor drv s) \<noteq> None \<and>
         (\<forall>info. vkCreateSwapchainKHR info \<notin> set (ctor_calls drv s))"
proof -
  let ?sel = "exec (select_physical_device drv) (exec (create_instance drv) s)"
  let ?cap = "exec (query_surface_capabilities drv) (exec (create_surface drv)
                (exec (create_device drv) ?sel))"
  let ?fmt = "exec (choose_surface_format drv) ?cap"
  let ?mode = "exec (choose_present_mode drv) ?fmt"
  let ?rest = "create_swapchain drv @ create_command_buffer drv @
               transition_image_layouts drv @ create_sync_objects drv"
  have ctor: "VkRenderer_ctor drv s = exec ?rest ?mode"
    by (simp add: VkRenderer_ctor_def exec_append)
  have dev: "mPhysicalDevice ?fmt = first_device drv" if "halted ?fmt = None"
  proof -
    from that have "halted ?sel = None"
      using exec_halted_mono by metis
    then have "mPhysicalDevice ?sel = first_device drv"
      using select_physical_device_selects [of drv "exec (create_instance drv) s"]
      by (simp add: first_device_def)
    then show ?thesis
      by (simp add: stages_keep_device)
  qed
  have stop: "halted ?mode \<noteq> None"
  proof (cases "halted ?fmt")
    case (Some h)
    then show ?thesis
      by (simp add: exec_stop)
  next
    case None
    then have pd: "mPhysicalDevice ?fmt = first_device drv"
      by (rule dev)
    then have pd_cap: "mPhysicalDevice ?cap = first_device drv"
      by (simp add: stages_keep_device)
    have "VK_FORMAT_R8G8B8A8_UNORM \<in> format ` set (surfaceFormats (first_device drv))"
    proof (rule ccontr)
      assume "VK_FORMAT_R8G8B8A8_UNORM \<notin> format ` set (surfaceFormats (first_device drv))"
      then have "surfaceFormatIndex (mPhysicalDevice ?cap) = VK_FORMAT_MAX_ENUM"
        by (simp add: pd_cap surfaceFormatIndex_absent)
      then have "halted ?fmt \<noteq> None"
        by (rule choose_surface_format_absent)
      with None show False
        by simp
    qed
    with assms have "VK_PRESENT_MODE_FIFO_KHR \<notin> set (presentModes (first_device drv))"
      by simp
    then have "presentModeIndex (mPhysicalDevice ?fmt) = VK_PRESENT_MODE_MAX_ENUM_KHR"
      by (simp add: pd presentModeIndex_absent)
    then show ?thesis
      by (rule choose_present_mode_absent)
  qed
  then obtain h where h: "halted ?mode = Some h"
    by auto
  then have final: "VkRenderer_ctor drv s = ?mode"
    by (simp add: ctor exec_stop)
  have mode: "?mode = exec (create_instance drv @ select_physical_device drv @ create_device drv @
            create_surface drv @ query_surface_capabilities drv @ choose_surface_format drv @
            choose_present_mode drv) s"
    by (simp add: exec_append)
  from before_swapchain_creates_none [of drv s] obtain new where
    "calls ?mode = calls s @ new" "list_all (\<lambda>c. \<forall>info. c \<noteq> vkCreateSwapchainKHR info) new"
    unfolding mode by blast
  then have "\<forall>info. vkCreateSwapchainKHR info \<notin> set (ctor_calls drv s)"
    by (auto simp add: ctor_calls_def final list_all_iff)
  with h final show ?thesis
    by simp
qed

lemma swapchain_creation_in_setup_calls:
  "vkCreateSwapchainKHR info \<in> set (setup_calls drv) \<longleftrightarrow>
     info = swapchainCreateInfo (first_device drv)"
  by (auto simp add: setup_calls_def)

lemma ctor_with_format_and_mode:
  assumes h: "halted s = None" and ok: "setup_succeeds drv"
  shows "halted (VkRenderer_ctor drv s) = None \<and>
         (\<exists>i < length (surfaceFormats (first_device drv)).
            format (surfaceFormats (first_device drv) ! i) = VK_FORMAT_R8G8B8A8_UNORM \<and>
            (\<forall>k < i. format (surfaceFormats (first_device drv) ! k) \<noteq> VK_FORMAT_R8G8B8A8_UNORM) \<and>
            (\<forall>info. vkCreateSwapchainKHR info \<in> set (ctor_calls drv s) \<longleftrightarrow>
               info = swapchainCreateInfo (first_device drv)) \<and>
            sc_imageFormat (swapchainCreateInfo (first_device drv)) = VK_FORMAT_R8G8B8A8_UNORM \<and>
            sc_imageColorSpace (swapchainCreateInfo (first_device drv)) =
              colorSpace (surfaceFormats (first_device drv) ! i) \<and>
            sc_presentMode (swapchainCreateInfo (first_device drv)) = VK_PRESENT_MODE_FIFO_KHR)"
proof -
  let ?pd = "first_device drv"
  from ok have fmt: "surfaceFormatIndex ?pd < length (surfaceFormats ?pd)"
      "format (surfaceFormats ?pd ! surfaceFormatIndex ?pd) = VK_FORMAT_R8G8B8A8_UNORM"
      "\<forall>k < surfaceFormatIndex ?pd. format (surfaceFormats ?pd ! k) \<noteq> VK_FORMAT_R8G8B8A8_UNORM"
    using surfaceFormatIndex_present [of ?pd] by (simp_all add: setup_succeeds_def)
  from ok have mode: "presentModes ?pd ! presentModeIndex ?pd = VK_PRESENT_MODE_FIFO_KHR"
    using presentModeIndex_present [of ?pd] by (simp add: setup_succeeds_def)
  from h ok have run: "halted (VkRenderer_ctor drv s) = None" "ctor_calls drv s = setup_calls drv"
    by (simp_all add: ctor_succeeds ctor_calls_def)
  have info: "sc_imageFormat (swapchainCreateInfo ?pd) = VK_FORMAT_R8G8B8A8_UNORM"
      "sc_imageColorSpace (swapchainCreateInfo ?pd) =
         colorSpace (surfaceFormats ?pd ! surfaceFormatIndex ?pd)"
      "sc_presentMode (swapchainCreateInfo ?pd) = VK_PRESENT_MODE_FIFO_KHR"
    by (simp_all add: swapchainCreateInfo_def fmt(2) mode)
  from run(2) have calls: "\<forall>info. vkCreateSwapchainKHR info \<in> set (ctor_calls drv s) \<longleftrightarrow>
      info = swapchainCreateInfo ?pd"
    by (simp add: swapchain_creation_in_setup_calls)
  from fmt info calls run(1) show ?thesis
    by blast
qed

lemma ctor_stops_at_format_assertion:
  assumes h: "halted s = None"
    and ok: "driver_succeeds drv"
    and req: "device_requirements drv"
    and absent: "VK_FORMAT_R8G8B8A8_UNORM \<notin> format ` set (surfaceFormats (first_device drv))"
  shows "halted (VkRenderer_ctor drv s) = Some (AssertionFailed 232)"
proof -
  from ok have [simp]: "\<And>c. vkResult drv c = VK_SUCCESS"
    by (simp add: driver_succeeds_def)
  from absent have "surfaceFormatIndex (first_device drv) = VK_FORMAT_MAX_ENUM"
    by (rule surfaceFormatIndex_absent)
  with req h show ?thesis
    unfolding VkRenderer_ctor_def ctor_stages device_requirements_def
      first_device_queue_family_def
    by (simp add: run_simps exec_map_invoke first_device_def)
qed

lemma ctor_stops_at_mode_assertion:
  assumes h: "halted s = None"
    and ok: "driver_succeeds drv"
    and req: "device_requirements drv"
    and present: "VK_FORMAT_R8G8B8A8_UNORM \<in> format ` set (surfaceFormats (first_device drv))"
      "length (surfaceFormats (first_device drv)) \<le> VK_FORMAT_MAX_ENUM"
    and absent: "VK_PRESENT_MODE_FIFO_KHR \<notin> set (presentModes (first_device drv))"
  shows "halted (VkRenderer_ctor drv s) = Some (AssertionFailed 253)"
proof -
  from ok have [simp]: "\<And>c. vkResult drv c = VK_SUCCESS"
    by (simp add: driver_succeeds_def)
  from absent have "presentModeIndex (first_device drv) = VK_PRESENT_MODE_MAX_ENUM_KHR"
    by (rule presentModeIndex_absent)
  moreover from present have "surfaceFormatIndex (first_device drv) \<noteq> VK_FORMAT_MAX_ENUM"
    using surfaceFormatIndex_present by blast
  ultimately show ?thesis
    using req h
    unfolding VkRenderer_ctor_def ctor_stages device_requirements_def
      first_device_queue_family_def
    by (simp add: run_simps exec_map_invoke first_device_def)
qed

text \<open>
  Claim C6.  Whenever the device reports the preferred pixel format
  (\<open>VK_FORMAT_R8G8B8A8_UNORM\<close>) among its surface formats and the FIFO present mode among
  its present modes, and nothing else fails, setup creates the swapchain with exactly
  the first reported format entry that has the preferred format (its format and its
  colour space) and with the FIFO present mode.  When either is absent, setup fails
  fatally, at the assertion on the format or at the assertion on the present mode when
  it gets that far, and never creates a swapchain with a substitute.  The lists are at
  most \<open>0x7FFFFFFF\<close> entries long, the range of the \<open>int\<close> loop counters.
\<close>

theorem swapchain_format_and_present_mode:
  assumes h: "halted s = None"
    and fmt_len: "length (surfaceFormats (first_device drv)) \<le> VK_FORMAT_MAX_ENUM"
    and mode_len: "length (presentModes (first_device drv)) \<le> VK_PRESENT_MODE_MAX_ENUM_KHR"
  shows "(driver_succeeds drv \<and> device_requirements drv \<and>
          VK_FORMAT_R8G8B8A8_UNORM \<in> format ` set (surfaceFormats (first_device drv)) \<and>
          VK_PRESENT_MODE_FIFO_KHR \<in> set (presentModes (first_device drv)) \<longrightarrow>
            halted (VkRenderer_ctor drv s) = None \<and>
            (\<exists>i < length (surfaceFormats (first_device drv)).
               format (surfaceFormats (first_device drv) ! i) = VK_FORMAT_R8G8B8A8_UNORM \<and>
               (\<forall>k < i. format (surfaceFormats (first_device drv) ! k)
                  \<noteq> VK_FORMAT_R8G8B8A8_UNORM) \<and>
               (\<forall>info. vkCreateSwapchainKHR info \<in> set (ctor_calls drv s) \<longleftrightarrow>
                  info = swapchainCreateInfo (first_device drv)) \<and>
               sc_imageFormat (swapchainCreateInfo (first_device drv))
                 = VK_FORMAT_R8G8B8A8_UNORM \<and>
               sc_imageColorSpace (swapchainCreateInfo (first_device drv)) =
                 colorSpace (surfaceFormats (first_device drv) ! i) \<and>
               sc_presentMode (swapchainCreateInfo (first_device drv))
                 = VK_PRESENT_MODE_FIFO_KHR)) \<and>
         (VK_FORMAT_R8G8B8A8_UNORM \<notin> format ` set (surfaceFormats (first_device drv)) \<or>
          VK_PRESENT_MODE_FIFO_KHR \<notin> set (presentModes (first_device drv)) \<longrightarrow>
            halted (VkRenderer_ctor drv s) \<noteq> None \<and>
            (\<forall>info. vkCreateSwapchainKHR info \<notin> set (ctor_calls drv s))) \<and>
         (driver_succeeds drv \<and> device_requirements drv \<and>
          VK_FORMAT_R8G8B8A8_UNORM \<notin> format ` set (surfaceFormats (first_device drv)) \<longrightarrow>
            halted (VkRenderer_ctor drv s) = Some (AssertionFailed 232)) \<and>
         (driver_succeeds drv \<and> device_requirements drv \<and>
          VK_FORMAT_R8G8B8A8_UNORM \<in> format ` set (surfaceFormats (first_device drv)) \<and>
          VK_PRESENT_MODE_FIFO_KHR \<notin> set (presentModes (first_device drv)) \<longrightarrow>
            halted (VkRenderer_ctor drv s) = Some (AssertionFailed 253))"
proof (intro conjI impI)
  assume "driver_succeeds drv \<and> device_requirements drv \<and>
          VK_FORMAT_R8G8B8A8_UNORM \<in> format ` set (surfaceFormats (first_device drv)) \<and>
          VK_PRESENT_MODE_FIFO_KHR \<in> set (presentModes (first_device drv))"
  with fmt_len mode_len have ok: "setup_succeeds drv"
    by (simp add: setup_succeeds_def)
  from ctor_with_format_and_mode [OF h ok]
  show "halted (VkRenderer_ctor drv s) = None"
    and "\<exists>i < length (surfaceFormats (first_device drv)).
               format (surfaceFormats (first_device drv) ! i) = VK_FORMAT_R8G8B8A8_UNORM \<and>
               (\<forall>k < i. format (surfaceFormats (first_device drv) ! k)
                  \<noteq> VK_FORMAT_R8G8B8A8_UNORM) \<and>
               (\<forall>info. vkCreateSwapchainKHR info \<in> set (ctor_calls drv s) \<longleftrightarrow>
                  info = swapchainCreateInfo (first_device drv)) \<and>
               sc_imageFormat (swapchainCreateInfo (first_device drv))
                 = VK_FORMAT_R8G8B8A8_UNORM \<and>
               sc_imageColorSpace (swapchainCreateInfo (first_device drv)) =
                 colorSpace (surfaceFormats (first_device drv) ! i) \<and>
               sc_presentMode (swapchainCreateInfo (first_device drv))
                 = VK_PRESENT_MODE_FIFO_KHR"
    by blast+
next
  assume "VK_FORMAT_R8G8B8A8_UNORM \<notin> format ` set (surfaceFormats (first_device drv)) \<or>
          VK_PRESENT_MODE_FIFO_KHR \<notin> set (presentModes (first_device drv))"
  from ctor_without_format_or_mode [OF this, of s]
  show "halted (VkRenderer_ctor drv s) \<noteq> None"
    and "\<forall>info. vkCreateSwapchainKHR info \<notin> set (ctor_calls drv s)"
    by blast+
next
  assume "driver_succeeds drv \<and> device_requirements drv \<and>
          VK_FORMAT_R8G8B8A8_UNORM \<notin> format ` set (surfaceFormats (first_device drv))"
  with h show "halted (VkRenderer_ctor drv s) = Some (AssertionFailed 232)"
    using ctor_stops_at_format_assertion by blast
next
  assume "driver_succeeds drv \<and> device_requirements drv \<and>
          VK_FORMAT_R8G8B8A8_UNORM \<in> format ` set (surfaceFormats (first_device drv)) \<and>
          VK_PRESENT_MODE_FIFO_KHR \<notin> set (presentModes (first_device drv))"
  with h fmt_len show "halted (VkRenderer_ctor drv s) = Some (AssertionFailed 253)"
    using ctor_stops_at_mode_assertion by blast
qed

lemma setup_succeeds_parts:
  "setup_succeeds drv \<Longrightarrow> driver_succeeds drv \<and> device_requirements drv \<and>
     VK_FORMAT_R8G8B8A8_UNORM \<in> format ` set (surfaceFormats (first_device drv)) \<and>
     length (surfaceFormats (first_device drv)) \<le> VK_FORMAT_MAX_ENUM \<and>
     VK_PRESENT_MODE_FIFO_KHR \<in> set (presentModes (first_device drv)) \<and>
     length (presentModes (first_device drv)) \<le> VK_PRESENT_MODE_MAX_ENUM_KHR"
  by (simp add: setup_succeeds_def)

lemma no_fifo_driver_facts:
  "driver_succeeds no_fifo_driver" "device_requirements no_fifo_driver"
  "VK_FORMAT_R8G8B8A8_UNORM \<in> format ` set (surfaceFormats (first_device no_fifo_driver))"
  "length (surfaceFormats (first_device no_fifo_driver)) \<le> VK_FORMAT_MAX_ENUM"
  "length (presentModes (first_device no_fifo_driver)) \<le> VK_PRESENT_MODE_MAX_ENUM_KHR"
  "VK_PRESENT_MODE_FIFO_KHR \<notin> set (presentModes (first_device no_fifo_driver))"
  by (simp_all add: driver_succeeds_def device_requirements_def
      first_device_def first_device_queue_family_def no_fifo_driver_def sample_driver_def
      sample_device_def instanceExtensionNames_def deviceExtensionNames_def compositeAlpha_def
      queueFamilyLoop_sample compositeAlphaLoop_sample
      VK_COMPOSITE_ALPHA_FLAG_BITS_MAX_ENUM_KHR_def VK_IMAGE_USAGE_COLOR_ATTACHMENT_BIT_def
      VK_FORMAT_R8G8B8A8_UNORM_def VK_FORMAT_MAX_ENUM_def VK_PRESENT_MODE_FIFO_KHR_def
      VK_PRESENT_MODE_MAX_ENUM_KHR_def)

lemma swapchainCreateInfo_sample:
  "sc_imageFormat (swapchainCreateInfo sample_device) = VK_FORMAT_R8G8B8A8_UNORM"
  "sc_imageColorSpace (swapchainCreateInfo sample_device) = 0"
  "sc_presentMode (swapchainCreateInfo sample_device) = VK_PRESENT_MODE_FIFO_KHR"
  by (simp_all add: swapchainCreateInfo_def surfaceFormatIndex_def presentModeIndex_def
      surfaceFormatLoop.simps presentModeLoop.simps sample_device_def
      VK_FORMAT_R8G8B8A8_UNORM_def VK_PRESENT_MODE_FIFO_KHR_def)

theorem swapchain_format_and_present_mode_witness:
  "halted fresh = None \<and>
   driver_succeeds sample_driver \<and> device_requirements sample_driver \<and>
   map format (surfaceFormats (first_device sample_driver)) = [44, 37, 37] \<and>
   map colorSpace (surfaceFormats (first_device sample_driver)) = [0, 0, 1000104001] \<and>
   presentModes (first_device sample_driver) = [1, 2] \<and>
   halted (VkRenderer_ctor sample_driver fresh) = None \<and>
   vkCreateSwapchainKHR (swapchainCreateInfo (first_device sample_driver))
     \<in> set (ctor_calls sample_driver fresh) \<and>
   sc_imageFormat (swapchainCreateInfo (first_device sample_driver)) = VK_FORMAT_R8G8B8A8_UNORM \<and>
   sc_imageColorSpace (swapchainCreateInfo (first_device sample_driver)) = 0 \<and>
   sc_presentMode (swapchainCreateInfo (first_device sample_driver)) = VK_PRESENT_MODE_FIFO_KHR \<and>
   presentModes (first_device no_fifo_driver) = [0, 1] \<and>
   halted (VkRenderer_ctor no_fifo_driver fresh) = Some (AssertionFailed 253) \<and>
   vkCreateSwapchainKHR (swapchainCreateInfo (first_device no_fifo_driver))
     \<notin> set (ctor_calls no_fifo_driver fresh)"
proof -
  note ok = setup_succeeds_parts [OF setup_succeeds_sample]
  have dev: "first_device sample_driver = sample_device"
    by (simp add: first_device_def sample_driver_def)
  have data: "map format (surfaceFormats (first_device sample_driver)) = [44, 37, 37]"
    "map colorSpace (surfaceFormats (first_device sample_driver)) = [0, 0, 1000104001]"
    "presentModes (first_device sample_driver) = [1, 2]"
    "presentModes (first_device no_fifo_driver) = [0, 1]"
    by (simp_all add: sample_device_def first_device_def no_fifo_driver_def sample_driver_def)
  from ok have
    "halted (VkRenderer_ctor sample_driver fresh) = None \<and>
     (\<exists>i < length (surfaceFormats (first_device sample_driver)).
        format (surfaceFormats (first_device sample_driver) ! i) = VK_FORMAT_R8G8B8A8_UNORM \<and>
        (\<forall>k < i. format (surfaceFormats (first_device sample_driver) ! k)
           \<noteq> VK_FORMAT_R8G8B8A8_UNORM) \<and>
        (\<forall>info. vkCreateSwapchainKHR info \<in> set (ctor_calls sample_driver fresh) \<longleftrightarrow>
           info = swapchainCreateInfo (first_device sample_driver)) \<and>
        sc_imageFormat (swapchainCreateInfo (first_device sample_driver))
          = VK_FORMAT_R8G8B8A8_UNORM \<and>
        sc_imageColorSpace (swapchainCreateInfo (first_device sample_driver)) =
          colorSpace (surfaceFormats (first_device sample_driver) ! i) \<and>
        sc_presentMode (swapchainCreateInfo (first_device sample_driver))
          = VK_PRESENT_MODE_FIFO_KHR)"
    using swapchain_format_and_present_mode [of fresh sample_driver] halted_fresh by blast
  then have good: "halted (VkRenderer_ctor sample_driver fresh) = None"
      "vkCreateSwapchainKHR (swapchainCreateInfo (first_device sample_driver))
         \<in> set (ctor_calls sample_driver fresh)"
    by blast+
  have bad: "halted (VkRenderer_ctor no_fifo_driver fresh) = Some (AssertionFailed 253)"
      "vkCreateSwapchainKHR (swapchainCreateInfo (first_device no_fifo_driver))
         \<notin> set (ctor_calls no_fifo_driver fresh)"
    using swapchain_format_and_present_mode [of fresh no_fifo_driver] halted_fresh
      no_fifo_driver_facts by blast+
  from halted_fresh ok data good bad swapchainCreateInfo_sample show ?thesis
    by (simp add: dev)
qed

section \<open>Properties of the motion-event filter\<close>

text \<open>
  Claim C8.  The motion-event filter is a predicate on the \<open>source\<close> field of the event
  alone: it returns true exactly when the source class, the source masked with
  \<open>AINPUT_SOURCE_CLASS_MASK\<close>, is the pointer class or the joystick class, and false for
  every other source class, whatever the other fields of the event are.
\<close>

theorem motion_event_filter_func_source_class:
  "motion_event_filter_func motionEvent =
     (source motionEvent AND AINPUT_SOURCE_CLASS_MASK
        \<in> {AINPUT_SOURCE_CLASS_POINTER, AINPUT_SOURCE_CLASS_JOYSTICK})"
  by (auto simp add: motion_event_filter_func_def sourceClass_def)

end
